theory Spec2Isabelle
  imports Complex_Main
begin

section \<open>Reverse-complement equivariant modules (mamba\_ssm/modules/rc\_wrapper.py)\<close>

text \<open>
  The development embeds the module classes of \<^verbatim>\<open>rc_wrapper.py\<close> shallowly.

  \<^item> A tensor of shape (batch, length, channels) is a nested list, outermost axis first;
    a tensor of token ids of shape (batch, length) is a list of lists of integers.
    Tensors are rectangular, nested lists need not be: where a shape matters it is a
    hypothesis (\<open>has_shape\<close>).  A nested list cannot record the sizes to the right of
    an axis of size zero, so shape checks on such tensors hold vacuously.
  \<^item> Tensor elements are values of an arbitrary type with the arithmetic the operation
    needs (a semiring for linear layers, a field of characteristic zero for the average
    of the collapse layer): arithmetic is exact, rounding of floating-point numbers is
    outside the model.
  \<^item> Every exception of Python or of the tensor library is a value \<open>Inl e\<close> of the
    result type \<open>error + 'a\<close>; statements run in the order of the source and the first
    error wins.
\<close>

subsection \<open>Errors and sequencing\<close>

datatype error = AssertionError string | IndexError | RuntimeError

fun rbind :: "error + 'a \<Rightarrow> ('a \<Rightarrow> error + 'b) \<Rightarrow> error + 'b" where
  "rbind (Inl e) f = Inl e"
| "rbind (Inr v) f = f v"

text \<open>Running a fallible function over a list, left to right, stopping at the first error.\<close>

fun mapM :: "('a \<Rightarrow> error + 'b) \<Rightarrow> 'a list \<Rightarrow> error + 'b list" where
  "mapM f [] = Inr []"
| "mapM f (x # xs) = rbind (f x) (\<lambda>y. rbind (mapM f xs) (\<lambda>ys. Inr (y # ys)))"

subsection \<open>Tensors and the tensor library's primitives\<close>

type_synonym 'a tensor3 = "'a list list list"

text \<open>\<open>has_shape B L C x\<close>: the nested list \<open>x\<close> is a tensor of shape (B, L, C).\<close>

definition has_shape :: "nat \<Rightarrow> nat \<Rightarrow> nat \<Rightarrow> 'a tensor3 \<Rightarrow> bool" where
  "has_shape B L C x =
     (length x = B \<and> list_all (\<lambda>m. length m = L \<and> list_all (\<lambda>r. length r = C) m) x)"

text \<open>\<^verbatim>\<open>torch.flip(x, dims=[-2, -1])\<close> on a tensor of three axes.\<close>

definition flip_matrix :: "'a list list \<Rightarrow> 'a list list" where
  "flip_matrix m = rev (map rev m)"

definition flip_len_chan :: "'a tensor3 \<Rightarrow> 'a tensor3" where
  "flip_len_chan x = map flip_matrix x"

text \<open>\<^verbatim>\<open>torch.flip(x, dims=[-1])\<close> on a tensor of three axes, and on a tensor of ids.\<close>

definition flip_chan :: "'a tensor3 \<Rightarrow> 'a tensor3" where
  "flip_chan x = map (map rev) x"

definition flip_ids :: "int list list \<Rightarrow> int list list" where
  "flip_ids x = map rev x"

text \<open>
  \<^verbatim>\<open>torch.cat([a, b], dim=-1)\<close> on tensors of three axes: the batch and length sizes
  must agree, otherwise the library raises.
\<close>

definition cat_rows :: "'a list list \<Rightarrow> 'a list list \<Rightarrow> 'a list list" where
  "cat_rows m n = map2 (@) m n"

definition torch_cat :: "'a tensor3 \<Rightarrow> 'a tensor3 \<Rightarrow> error + 'a tensor3" where
  "torch_cat a b =
     (if list_all2 (\<lambda>m n. length m = length n) a b
      then Inr (map2 cat_rows a b)
      else Inl RuntimeError)"

text \<open>
  Indexing a one-dimensional tensor by an integer tensor, one index at a time: an index
  in \<open>[-n, n)\<close> is accepted and a negative one counts from the end; any other raises.
\<close>

definition tensor_index :: "'a list \<Rightarrow> int \<Rightarrow> error + 'a" where
  "tensor_index t i =
     (let n = int (length t)
      in if - n \<le> i \<and> i < n then Inr (t ! nat (if i < 0 then i + n else i))
         else Inl IndexError)"

text \<open>
  \<^verbatim>\<open>nn.Embedding.forward\<close>: row \<open>i\<close> of the weight matrix for every id \<open>i\<close>; an id
  outside \<open>[0, num_embeddings)\<close> raises.
\<close>

definition embedding_row :: "'a list list \<Rightarrow> int \<Rightarrow> error + 'a list" where
  "embedding_row w i = (if 0 \<le> i \<and> i < int (length w) then Inr (w ! nat i) else Inl IndexError)"

definition F_embedding :: "int list list \<Rightarrow> 'a list list \<Rightarrow> error + 'a tensor3" where
  "F_embedding input w = mapM (mapM (embedding_row w)) input"

text \<open>
  \<^verbatim>\<open>F.linear(x, weight, bias)\<close>: on every channel vector \<open>v\<close> of \<open>x\<close>, output channel
  \<open>j\<close> is \<open>\<Sum>k. v[k] * weight[j][k]\<close>, plus \<open>bias[j]\<close> when there is a bias.  The weight
  has shape (out\_features, in\_features); a channel vector of another width raises.
\<close>

definition dot :: "'a::semiring_0 list \<Rightarrow> 'a list \<Rightarrow> 'a" where
  "dot v row = sum_list (map2 (*) v row)"

definition linear_row :: "'a::semiring_0 list list \<Rightarrow> 'a list option \<Rightarrow> 'a list \<Rightarrow> error + 'a list" where
  "linear_row w b v =
     (if list_all (\<lambda>row. length row = length v) w
      then (case b of
              None \<Rightarrow> Inr (map (dot v) w)
            | Some bs \<Rightarrow>
                if length bs = length w then Inr (map2 (+) (map (dot v) w) bs)
                else Inl RuntimeError)
      else Inl RuntimeError)"

definition F_linear :: "'a::semiring_0 tensor3 \<Rightarrow> 'a list list \<Rightarrow> 'a list option \<Rightarrow> error + 'a tensor3" where
  "F_linear x w b = mapM (mapM (linear_row w b)) x"

record 'a Linear =
  weight :: "'a list list"
  bias :: "'a list option"

definition Linear_forward :: "'a::semiring_0 Linear \<Rightarrow> 'a tensor3 \<Rightarrow> error + 'a tensor3" where
  "Linear_forward l x = F_linear x (weight l) (bias l)"

text \<open>
  Parameter tensors are allocated by the library with the requested sizes and filled by
  its random initialisers; a negative size raises.  The initial values are a parameter
  of the model: \<open>init i j\<close> is the value drawn for entry \<open>(i, j)\<close>.
\<close>

definition torch_empty :: "(nat \<Rightarrow> nat \<Rightarrow> 'a) \<Rightarrow> int \<Rightarrow> int \<Rightarrow> error + 'a list list" where
  "torch_empty init rows cols =
     (if rows < 0 \<or> cols < 0 then Inl RuntimeError
      else Inr (map (\<lambda>i. map (init i) [0..<nat cols]) [0..<nat rows]))"

text \<open>\<^verbatim>\<open>nn.Linear(in_features, out_features, bias=has_bias)\<close>.\<close>

definition nn_Linear :: "(nat \<Rightarrow> nat \<Rightarrow> 'a) \<Rightarrow> (nat \<Rightarrow> 'a) \<Rightarrow> int \<Rightarrow> int \<Rightarrow> bool \<Rightarrow> error + 'a Linear" where
  "nn_Linear w_init b_init in_features out_features has_bias =
     rbind (torch_empty w_init out_features in_features) (\<lambda>w.
     Inr \<lparr>weight = w,
          bias = (if has_bias then Some (map b_init [0..<nat out_features]) else None)\<rparr>)"

text \<open>\<^verbatim>\<open>nn.Embedding(num_embeddings, embedding_dim)\<close>: its weight matrix.\<close>

definition nn_Embedding :: "(nat \<Rightarrow> nat \<Rightarrow> 'a) \<Rightarrow> int \<Rightarrow> int \<Rightarrow> error + 'a list list" where
  "nn_Embedding e_init num_embeddings embedding_dim = torch_empty e_init num_embeddings embedding_dim"

text \<open>The value of the layer on one channel vector of the right width.\<close>

definition proj_row :: "'a::semiring_0 Linear \<Rightarrow> 'a list \<Rightarrow> 'a list" where
  "proj_row l v =
     (case bias l of
        None \<Rightarrow> map (dot v) (weight l)
      | Some bs \<Rightarrow> map2 (+) (map (dot v) (weight l)) bs)"

text \<open>\<open>Linear_wf i o l\<close>: the layer \<open>l\<close> maps \<open>i\<close> input features to \<open>o\<close> output features.\<close>

definition Linear_wf :: "nat \<Rightarrow> nat \<Rightarrow> 'a Linear \<Rightarrow> bool" where
  "Linear_wf i o' l =
     (length (weight l) = o' \<and> list_all (\<lambda>r. length r = i) (weight l) \<and>
      (case bias l of None \<Rightarrow> True | Some b \<Rightarrow> length b = o'))"

text \<open>
  Elementwise addition of two tensors with the library's broadcasting: along each axis
  the sizes are equal, or one of them is 1 and that operand is repeated; any other pair
  of sizes raises.
\<close>

definition broadcast2 :: "('a \<Rightarrow> 'b \<Rightarrow> error + 'c) \<Rightarrow> 'a list \<Rightarrow> 'b list \<Rightarrow> error + 'c list" where
  "broadcast2 f xs ys =
     (if length xs = length ys then mapM (\<lambda>(x, y). f x y) (zip xs ys)
      else if length xs = 1 then mapM (f (hd xs)) ys
      else if length ys = 1 then mapM (\<lambda>x. f x (hd ys)) xs
      else Inl RuntimeError)"

definition tensor_add :: "'a::plus tensor3 \<Rightarrow> 'a tensor3 \<Rightarrow> error + 'a tensor3" where
  "tensor_add a b = broadcast2 (broadcast2 (broadcast2 (\<lambda>x y. Inr (x + y)))) a b"

text \<open>The elementwise sum of two tensors of one shape.\<close>

definition add3 :: "'a::plus tensor3 \<Rightarrow> 'a tensor3 \<Rightarrow> 'a tensor3" where
  "add3 a b = map2 (map2 (map2 (+))) a b"

text \<open>
  The channel slices \<^verbatim>\<open>x[..., :n // 2]\<close> and \<^verbatim>\<open>x[..., n // 2:]\<close> with
  \<^verbatim>\<open>n = x.shape[-1]\<close>.
\<close>

definition first_half :: "'a tensor3 \<Rightarrow> 'a tensor3" where
  "first_half x = map (map (\<lambda>r. take (length r div 2) r)) x"

definition second_half :: "'a tensor3 \<Rightarrow> 'a tensor3" where
  "second_half x = map (map (\<lambda>r. drop (length r div 2) r)) x"

subsection \<open>RCPSEmbedding\<close>

record 'a RCPSEmbedding =
  complement_map :: "int list"
  embedding :: "'a list list"
  proj :: "'a Linear"

text \<open>
  A Python dictionary of integers is the list of its (key, value) items in iteration
  order, the keys pairwise distinct.  \<open>OrderedDict_values\<close> is
  \<^verbatim>\<open>list(OrderedDict(m).values())\<close>, \<open>dict_get\<close> is the key-to-value reading
  \<^verbatim>\<open>m[k]\<close> (\<open>None\<close> when \<open>k\<close> is not a key).
\<close>

definition OrderedDict_values :: "(int \<times> int) list \<Rightarrow> int list" where
  "OrderedDict_values m = map snd m"

definition dict_get :: "(int \<times> int) list \<Rightarrow> int \<Rightarrow> int option" where
  "dict_get m k = map_of m k"

text \<open>
  \<^verbatim>\<open>torch.tensor(values, dtype=torch.long)\<close>: the values as a tensor of 64-bit
  integers; a value that does not fit raises.
\<close>

definition torch_tensor_long :: "int list \<Rightarrow> error + int list" where
  "torch_tensor_long vs =
     (if list_all (\<lambda>v. - (2 ^ 63) \<le> v \<and> v < 2 ^ 63) vs then Inr vs else Inl RuntimeError)"

text \<open>
  The constructor: the buffer \<open>complement_map\<close>, the embedding table, the assertion on
  \<open>d_model\<close>, the projection, in the order of the source.
\<close>

definition RCPSEmbedding_init ::
  "(nat \<Rightarrow> nat \<Rightarrow> 'a) \<Rightarrow> (nat \<Rightarrow> nat \<Rightarrow> 'a) \<Rightarrow> (nat \<Rightarrow> 'a) \<Rightarrow>
     int \<Rightarrow> int \<Rightarrow> (int \<times> int) list \<Rightarrow> error + 'a RCPSEmbedding" where
  "RCPSEmbedding_init e_init w_init b_init vocab_size d_model complement_map' =
     rbind (torch_tensor_long (OrderedDict_values complement_map')) (\<lambda>buf.
     rbind (nn_Embedding e_init vocab_size d_model) (\<lambda>emb.
     if d_model mod 2 \<noteq> 0 then Inl (AssertionError ''d_model must be even!'')
     else rbind (nn_Linear w_init b_init d_model (d_model div 2) True) (\<lambda>p.
          Inr \<lparr>complement_map = buf, embedding = emb, proj = p\<rparr>)))"

text \<open>
  \<open>RCPSEmbedding_wf V d self\<close>: the parameter shapes of a module built for vocabulary
  size \<open>V\<close> and even model width \<open>d\<close>.
\<close>

definition RCPSEmbedding_wf :: "nat \<Rightarrow> nat \<Rightarrow> 'a RCPSEmbedding \<Rightarrow> bool" where
  "RCPSEmbedding_wf V d self =
     (d mod 2 = 0 \<and> length (embedding self) = V \<and>
      list_all (\<lambda>r. length r = d) (embedding self) \<and> Linear_wf d (d div 2) (proj self))"

text \<open>
  \<open>ids_in_range V x\<close>: every id of \<open>x\<close> lies in the vocabulary \<open>[0, V)\<close>.
  \<open>complement_involution V t\<close>: on the vocabulary, the lookup table \<open>t\<close> maps ids to
  ids and looking up twice returns the id.
\<close>

definition ids_in_range :: "nat \<Rightarrow> int list list \<Rightarrow> bool" where
  "ids_in_range V x = list_all (list_all (\<lambda>i. 0 \<le> i \<and> i < int V)) x"

definition complement_involution :: "nat \<Rightarrow> int list \<Rightarrow> bool" where
  "complement_involution V t =
     list_all (\<lambda>i. case tensor_index t (int i) of
                     Inl e \<Rightarrow> False
                   | Inr j \<Rightarrow> 0 \<le> j \<and> j < int V \<and> tensor_index t j = Inr (int i)) [0..<V]"

text \<open>
  The complement of an id under the table \<open>t\<close> as a total function; it is the value of
  the lookup wherever the lookup does not raise.
\<close>

definition compl :: "int list \<Rightarrow> int \<Rightarrow> int" where
  "compl t i = (case tensor_index t i of Inr j \<Rightarrow> j | Inl e \<Rightarrow> i)"

text \<open>\<^verbatim>\<open>torch.vmap(lambda t: self.complement_map[t])\<close>.\<close>

definition vmap_complement :: "'a RCPSEmbedding \<Rightarrow> int list list \<Rightarrow> error + int list list" where
  "vmap_complement self x = mapM (\<lambda>t. mapM (tensor_index (complement_map self)) t) x"

definition RCPSEmbedding_rc :: "'a RCPSEmbedding \<Rightarrow> int list list \<Rightarrow> error + int list list" where
  "RCPSEmbedding_rc self x = vmap_complement self (flip_ids x)"

definition RCPSEmbedding_forward :: "'a::semiring_0 RCPSEmbedding \<Rightarrow> int list list \<Rightarrow> error + 'a tensor3" where
  "RCPSEmbedding_forward self input_ids =
     rbind (F_embedding input_ids (embedding self)) (\<lambda>e.
     rbind (Linear_forward (proj self) e) (\<lambda>fwd_out.
     rbind (RCPSEmbedding_rc self input_ids) (\<lambda>rc_ids.
     rbind (F_embedding rc_ids (embedding self)) (\<lambda>e_rc.
     rbind (Linear_forward (proj self) e_rc) (\<lambda>p_rc.
     torch_cat fwd_out (flip_len_chan p_rc))))))"

text \<open>
  The reading of the lookup table as a partial function on ids: the entry the tensor
  library returns for index \<open>k\<close>, \<open>None\<close> where it raises.
\<close>

definition table_get :: "int list \<Rightarrow> int \<Rightarrow> int option" where
  "table_get t k = (case tensor_index t k of Inr v \<Rightarrow> Some v | Inl e \<Rightarrow> None)"

text \<open>
  The projected embedding of one id: the channel vector that the embedding table followed
  by the projection yields for it.
\<close>

definition embed_proj :: "'a::semiring_0 RCPSEmbedding \<Rightarrow> int \<Rightarrow> 'a list" where
  "embed_proj self i = proj_row (proj self) (embedding self ! nat i)"

text \<open>
  \<open>dict_involution m\<close>: read from keys to values, the dictionary \<open>m\<close> maps each value
  back to its key.
\<close>

definition dict_involution :: "(int \<times> int) list \<Rightarrow> bool" where
  "dict_involution m = list_all (\<lambda>(k, v). dict_get m v = Some k) m"

text \<open>
  A module over the vocabulary A, T, C, G with the complement map
  \<^verbatim>\<open>{0: 1, 1: 0, 2: 3, 3: 2}\<close> and \<open>d_model = 2\<close>.
\<close>

definition example_embedding :: "int RCPSEmbedding" where
  "example_embedding =
     \<lparr>complement_map = [1, 0, 3, 2],
      embedding = [[1, 0], [0, 1], [2, 3], [5, 7]],
      proj = \<lparr>weight = [[1, 2]], bias = Some [1]\<rparr>\<rparr>"

text \<open>
  Two more complement maps, and the modules the constructor builds from them for
  \<open>vocab_size = 4\<close>, \<open>d_model = 2\<close> when row \<open>i\<close> of the embedding table is initialised to
  \<open>i\<close>, the projection weight to 1 and its bias to 0 (the initial values
  \<open>row_index_init\<close>, \<open>ones_init\<close>, \<open>zero_bias_init\<close>): the map
  \<^verbatim>\<open>{0: 1, 1: 2, 2: 0, 3: 3}\<close>, a cycle of three ids with its keys in order, and the
  involution \<^verbatim>\<open>{0: 3, 3: 0, 1: 2, 2: 1}\<close> written pair by pair.
\<close>

definition row_index_init :: "nat \<Rightarrow> nat \<Rightarrow> int" where
  "row_index_init i j = int i"

definition ones_init :: "nat \<Rightarrow> nat \<Rightarrow> int" where
  "ones_init i j = 1"

definition zeros_init :: "nat \<Rightarrow> nat \<Rightarrow> int" where
  "zeros_init i j = 0"

definition zero_bias_init :: "nat \<Rightarrow> int" where
  "zero_bias_init i = 0"

definition cycle_complement_map :: "(int \<times> int) list" where
  "cycle_complement_map = [(0, 1), (1, 2), (2, 0), (3, 3)]"

definition cycle_embedding :: "int RCPSEmbedding" where
  "cycle_embedding =
     \<lparr>complement_map = [1, 2, 0, 3],
      embedding = [[0, 0], [1, 1], [2, 2], [3, 3]],
      proj = \<lparr>weight = [[1, 1]], bias = Some [0]\<rparr>\<rparr>"

definition pairwise_complement_map :: "(int \<times> int) list" where
  "pairwise_complement_map = [(0, 3), (3, 0), (1, 2), (2, 1)]"

definition pairwise_embedding :: "int RCPSEmbedding" where
  "pairwise_embedding =
     \<lparr>complement_map = [3, 0, 2, 1],
      embedding = [[0, 0], [1, 1], [2, 2], [3, 3]],
      proj = \<lparr>weight = [[1, 1]], bias = Some [0]\<rparr>\<rparr>"

subsection \<open>RCPSWrapper and RCPSWrapperKeepDim\<close>

text \<open>
  The wrapped submodule is any function from tensors to tensors that may raise; keyword
  arguments are part of the function.
\<close>

record ('a, 'b) RCPSWrapper =
  submodule :: "'a tensor3 \<Rightarrow> error + 'b tensor3"

definition RCPSWrapper_rc :: "'a tensor3 \<Rightarrow> 'a tensor3" where
  "RCPSWrapper_rc x = flip_len_chan x"

definition RCPSWrapper_forward :: "('a, 'b) RCPSWrapper \<Rightarrow> 'a tensor3 \<Rightarrow> error + 'b tensor3" where
  "RCPSWrapper_forward self x =
     rbind (submodule self x) (\<lambda>fwd_out.
     rbind (submodule self (RCPSWrapper_rc x)) (\<lambda>rc_out.
     torch_cat fwd_out (RCPSWrapper_rc rc_out)))"

text \<open>
  A wrapper around a submodule that drops the first position of every sequence; the
  submodule does not commute with the flip.
\<close>

definition drop_first_wrapper :: "(int, int) RCPSWrapper" where
  "drop_first_wrapper = \<lparr>submodule = \<lambda>t. Inr (map tl t)\<rparr>"

record ('a, 'b) RCPSWrapperKeepDim = "('a, 'b) RCPSWrapper" +
  keepdim_proj :: "'b Linear"

definition RCPSWrapperKeepDim_init ::
  "(nat \<Rightarrow> nat \<Rightarrow> 'b) \<Rightarrow> (nat \<Rightarrow> 'b) \<Rightarrow> ('a tensor3 \<Rightarrow> error + 'b tensor3) \<Rightarrow> int \<Rightarrow>
     error + ('a, 'b) RCPSWrapperKeepDim" where
  "RCPSWrapperKeepDim_init w_init b_init submodule' dim' =
     (if dim' mod 2 \<noteq> 0 then Inl (AssertionError ''dim must be even!'')
      else rbind (nn_Linear w_init b_init dim' (dim' div 2) True) (\<lambda>p.
           Inr \<lparr>submodule = submodule', keepdim_proj = p\<rparr>))"

definition RCPSWrapperKeepDim_forward ::
  "('a, 'b::semiring_0) RCPSWrapperKeepDim \<Rightarrow> 'a tensor3 \<Rightarrow> error + 'b tensor3" where
  "RCPSWrapperKeepDim_forward self x =
     rbind (submodule self x) (\<lambda>s_fwd.
     rbind (Linear_forward (keepdim_proj self) s_fwd) (\<lambda>fwd_out.
     rbind (submodule self (RCPSWrapper_rc x)) (\<lambda>s_rc.
     rbind (Linear_forward (keepdim_proj self) s_rc) (\<lambda>rc_out.
     torch_cat fwd_out (RCPSWrapper_rc rc_out)))))"

text \<open>
  A wrapper with \<open>dim = 4\<close> around a submodule that adds one to every element.
\<close>

definition example_keepdim :: "(int, int) RCPSWrapperKeepDim" where
  "example_keepdim =
     \<lparr>submodule = \<lambda>t. Inr (map (map (map (\<lambda>v. v + 1))) t),
      keepdim_proj = \<lparr>weight = [[1, 0, 0, 2], [0, 1, 3, 0]], bias = Some [0, 1]\<rparr>\<rparr>"

subsection \<open>RCPSAddNormWrapper\<close>

text \<open>
  \<open>norm_f\<close> is the wrapped normalisation; \<open>norm_dtype\<close> is the conversion of one element
  to the element type of the normalisation's weight (\<^verbatim>\<open>.to(dtype=self.norm_f.weight.dtype)\<close>).
\<close>

record ('a, 'b) RCPSAddNormWrapper =
  norm_f :: "'b tensor3 \<Rightarrow> error + 'b tensor3"
  norm_dtype :: "'a \<Rightarrow> 'b"

definition tensor_to :: "('a \<Rightarrow> 'b) \<Rightarrow> 'a tensor3 \<Rightarrow> 'b tensor3" where
  "tensor_to c x = map (map (map c)) x"

definition RCPSAddNormWrapper_rc :: "'a tensor3 \<Rightarrow> 'a tensor3" where
  "RCPSAddNormWrapper_rc x = flip_len_chan x"

definition RCPSAddNormWrapper_forward ::
  "('a::plus, 'b) RCPSAddNormWrapper \<Rightarrow> 'a tensor3 \<Rightarrow> 'a tensor3 option \<Rightarrow>
     error + ('b tensor3 \<times> 'a tensor3)" where
  "RCPSAddNormWrapper_forward self x residual =
     rbind (case residual of Some r \<Rightarrow> tensor_add x r | None \<Rightarrow> Inr x) (\<lambda>residual_fwd.
     rbind (norm_f self (tensor_to (norm_dtype self) residual_fwd)) (\<lambda>x_fwd.
     rbind (case residual of
              Some r \<Rightarrow> tensor_add (RCPSAddNormWrapper_rc x) (RCPSAddNormWrapper_rc r)
            | None \<Rightarrow> Inr (RCPSAddNormWrapper_rc x)) (\<lambda>residual_rc.
     rbind (norm_f self (tensor_to (norm_dtype self) residual_rc)) (\<lambda>x_rc.
     rbind (torch_cat residual_fwd (RCPSAddNormWrapper_rc residual_rc)) (\<lambda>residual'.
     rbind (torch_cat x_fwd (RCPSAddNormWrapper_rc x_rc)) (\<lambda>x'.
     Inr (x', residual')))))))"

text \<open>
  The two residual sums of the forward pass on operands of one shape: the forward sum
  \<open>x + residual\<close> (or \<open>x\<close>), and the sum of the reverse branch, computed from the flip
  transforms.
\<close>

definition residual_fwd_sum :: "'a::plus tensor3 \<Rightarrow> 'a tensor3 option \<Rightarrow> 'a tensor3" where
  "residual_fwd_sum x residual = (case residual of Some r \<Rightarrow> add3 x r | None \<Rightarrow> x)"

definition residual_rc_sum :: "'a::plus tensor3 \<Rightarrow> 'a tensor3 option \<Rightarrow> 'a tensor3" where
  "residual_rc_sum x residual =
     (case residual of
        Some r \<Rightarrow> add3 (RCPSAddNormWrapper_rc x) (RCPSAddNormWrapper_rc r)
      | None \<Rightarrow> RCPSAddNormWrapper_rc x)"

text \<open>
  The result as the specification words it: the two normalised sums concatenated along
  the channel axis, and the two sums concatenated along the channel axis, the reverse
  branch taken as it is.
\<close>

definition AddNorm_spec ::
  "('a::plus, 'b) RCPSAddNormWrapper \<Rightarrow> 'a tensor3 \<Rightarrow> 'a tensor3 option \<Rightarrow>
     error + ('b tensor3 \<times> 'a tensor3)" where
  "AddNorm_spec self x residual =
     rbind (norm_f self (tensor_to (norm_dtype self) (residual_fwd_sum x residual))) (\<lambda>x_fwd.
     rbind (norm_f self (tensor_to (norm_dtype self) (residual_rc_sum x residual))) (\<lambda>x_rc.
     rbind (torch_cat (residual_fwd_sum x residual) (residual_rc_sum x residual)) (\<lambda>residual'.
     rbind (torch_cat x_fwd x_rc) (\<lambda>x'.
     Inr (x', residual')))))"

text \<open>A wrapper around a normalisation that doubles every element.\<close>

definition example_addnorm :: "(int, int) RCPSAddNormWrapper" where
  "example_addnorm = \<lparr>norm_f = \<lambda>t. Inr (map (map (map (\<lambda>v. 2 * v))) t), norm_dtype = id\<rparr>"

subsection \<open>RCPSAddNormWrapperKeepDim\<close>

record ('a, 'b) RCPSAddNormWrapperKeepDim = "('a, 'b) RCPSAddNormWrapper" +
  res_proj :: "'a Linear"

definition RCPSAddNormWrapperKeepDim_init ::
  "(nat \<Rightarrow> nat \<Rightarrow> 'a) \<Rightarrow> (nat \<Rightarrow> 'a) \<Rightarrow> ('b tensor3 \<Rightarrow> error + 'b tensor3) \<Rightarrow> ('a \<Rightarrow> 'b) \<Rightarrow> int \<Rightarrow>
     error + ('a, 'b) RCPSAddNormWrapperKeepDim" where
  "RCPSAddNormWrapperKeepDim_init w_init b_init norm_f' norm_dtype' dim' =
     rbind (nn_Linear w_init b_init dim' (dim' div 2) False) (\<lambda>p.
     Inr \<lparr>norm_f = norm_f', norm_dtype = norm_dtype', res_proj = p\<rparr>)"

definition RCPSAddNormWrapperKeepDim_forward ::
  "('a::semiring_0, 'b) RCPSAddNormWrapperKeepDim \<Rightarrow> 'a tensor3 \<Rightarrow> 'a tensor3 option \<Rightarrow>
     error + ('b tensor3 \<times> 'a tensor3)" where
  "RCPSAddNormWrapperKeepDim_forward self x residual =
     rbind (case residual of Some r \<Rightarrow> tensor_add x r | None \<Rightarrow> Inr x) (\<lambda>s_fwd.
     rbind (Linear_forward (res_proj self) s_fwd) (\<lambda>residual_fwd.
     rbind (norm_f self (tensor_to (norm_dtype self) residual_fwd)) (\<lambda>x_fwd.
     rbind (case residual of
              Some r \<Rightarrow> tensor_add (RCPSAddNormWrapper_rc x) (RCPSAddNormWrapper_rc r)
            | None \<Rightarrow> Inr (RCPSAddNormWrapper_rc x)) (\<lambda>s_rc.
     rbind (Linear_forward (res_proj self) s_rc) (\<lambda>residual_rc.
     rbind (norm_f self (tensor_to (norm_dtype self) residual_rc)) (\<lambda>x_rc.
     rbind (torch_cat residual_fwd (RCPSAddNormWrapper_rc residual_rc)) (\<lambda>residual'.
     rbind (torch_cat x_fwd (RCPSAddNormWrapper_rc x_rc)) (\<lambda>x'.
     Inr (x', residual')))))))))"

subsection \<open>RCPSLMHead\<close>

record 'a RCPSLMHead =
  lm_head :: "'a Linear"

definition RCPSLMHead_weight :: "'a RCPSLMHead \<Rightarrow> 'a list list" where
  "RCPSLMHead_weight self = weight (lm_head self)"

definition tie_weights :: "'a RCPSLMHead \<Rightarrow> 'a list list \<Rightarrow> 'a RCPSLMHead" where
  "tie_weights self v = self\<lparr>lm_head := (lm_head self)\<lparr>weight := v\<rparr>\<rparr>"

definition RCPSLMHead_forward :: "'a::semiring_0 RCPSLMHead \<Rightarrow> 'a tensor3 \<Rightarrow> error + 'a tensor3" where
  "RCPSLMHead_forward self x =
     rbind (F_linear (first_half x) (RCPSLMHead_weight self) None) (\<lambda>fwd_logits.
     rbind (F_linear (flip_chan (second_half x)) (RCPSLMHead_weight self) None) (\<lambda>rc_logits.
     tensor_add fwd_logits (flip_chan rc_logits)))"

text \<open>
  One position of the forward pass: the logits for the channel vector \<open>r\<close> of width
  \<open>2 * n\<close> under the weight \<open>w\<close>.
\<close>

definition lm_row :: "'a::semiring_0 list list \<Rightarrow> 'a list \<Rightarrow> 'a list" where
  "lm_row w r =
     map2 (+) (map (dot (take (length r div 2) r)) w)
              (rev (map (dot (rev (drop (length r div 2) r))) w))"

text \<open>
  The logit at vocabulary position \<open>v\<close> as the specification words it, by indices: the
  shared linear map on the forward half, plus the entry at the mirrored vocabulary
  position \<open>V - 1 - v\<close> of the shared linear map on the channel-flipped reverse half.
\<close>

definition lm_head_spec :: "'a::semiring_0 list list \<Rightarrow> 'a list \<Rightarrow> nat \<Rightarrow> 'a" where
  "lm_head_spec w r v =
     (let n = length r div 2; V = length w
      in (\<Sum>k = 0..<n. r ! k * w ! v ! k)
         + (\<Sum>k = 0..<n. r ! (2 * n - 1 - k) * w ! (V - 1 - v) ! k))"

text \<open>
  \<open>LMHead_wf n V self\<close>: the head's weight has shape (V, n), vocabulary size \<open>V\<close> and
  \<open>true_dim = n\<close>.
\<close>

definition LMHead_wf :: "nat \<Rightarrow> nat \<Rightarrow> 'a RCPSLMHead \<Rightarrow> bool" where
  "LMHead_wf n V self =
     (length (RCPSLMHead_weight self) = V \<and> list_all (\<lambda>r. length r = n) (RCPSLMHead_weight self))"

text \<open>A head with \<open>true_dim = 2\<close> and a vocabulary of three.\<close>

definition example_lm_head :: "int RCPSLMHead" where
  "example_lm_head = \<lparr>lm_head = \<lparr>weight = [[1, 2], [3, 4], [5, 6]], bias = None\<rparr>\<rparr>"

subsection \<open>RCPSCollapse\<close>

definition RCPSCollapse_forward :: "'a::field tensor3 \<Rightarrow> error + 'a tensor3" where
  "RCPSCollapse_forward x =
     rbind (tensor_add (first_half x) (flip_len_chan (second_half x))) (\<lambda>s.
     Inr (map (map (map (\<lambda>v. v / 2))) s))"

section \<open>Properties\<close>

subsection \<open>Sequencing\<close>

lemma mapM_Inr:
  assumes "\<And>x. x \<in> set xs \<Longrightarrow> f x = Inr (g x)"
  shows "mapM f xs = Inr (map g xs)"
  using assms by (induction xs) simp_all

subsection \<open>Flips and concatenation\<close>

lemma flip_matrix_involution: "flip_matrix (flip_matrix m) = m"
  by (simp add: flip_matrix_def rev_map o_def)

lemma flip_len_chan_involution: "flip_len_chan (flip_len_chan x) = x"
  by (simp add: flip_len_chan_def o_def flip_matrix_involution)

lemma length_flip_matrix: "length (flip_matrix m) = length m"
  by (simp add: flip_matrix_def)

lemma rev_map2:
  "length xs = length ys \<Longrightarrow> rev (map2 f xs ys) = map2 f (rev xs) (rev ys)"
  by (simp add: rev_map zip_rev)

lemma map_rev_append2:
  "map rev (map2 (@) xs ys) = map2 (@) (map rev ys) (map rev xs)"
proof (induction xs arbitrary: ys)
  case Nil
  then show ?case by simp
next
  case (Cons x xs)
  then show ?case by (cases ys) simp_all
qed

lemma flip_matrix_cat_rows:
  assumes "length m = length n"
  shows "flip_matrix (cat_rows m (flip_matrix n)) = cat_rows n (flip_matrix m)"
proof -
  have "rev (map rev (map2 (@) m (rev (map rev n))))
      = rev (map2 (@) (map rev (rev (map rev n))) (map rev m))"
    by (simp only: map_rev_append2)
  also have "\<dots> = map2 (@) (rev (map rev (rev (map rev n)))) (rev (map rev m))"
    using assms by (intro rev_map2) simp
  also have "rev (map rev (rev (map rev n))) = n"
    by (simp add: rev_map o_def)
  finally show ?thesis
    by (simp only: flip_matrix_def cat_rows_def)
qed

lemma same_lengths_flip_right:
  "list_all2 (\<lambda>m n. length m = length n) a (flip_len_chan b)
     = list_all2 (\<lambda>m n. length m = length n) a b"
  by (simp add: flip_len_chan_def list_all2_map2 length_flip_matrix)

lemma same_lengths_sym:
  "list_all2 (\<lambda>m n. length m = length n) a b \<Longrightarrow> list_all2 (\<lambda>m n. length m = length n) b a"
  by (simp add: list_all2_conv_all_nth)

lemma torch_cat_Inr:
  "torch_cat a b = Inr y \<longleftrightarrow>
     list_all2 (\<lambda>m n. length m = length n) a b \<and> y = map2 cat_rows a b"
  by (auto simp: torch_cat_def)

lemma torch_cat_flip:
  assumes "torch_cat a (flip_len_chan b) = Inr y"
  shows "torch_cat b (flip_len_chan a) = Inr (flip_len_chan y)"
proof -
  have ab: "list_all2 (\<lambda>m n. length m = length n) a b"
    and y: "y = map2 cat_rows a (flip_len_chan b)"
    using assms by (simp_all add: torch_cat_Inr same_lengths_flip_right)
  have "flip_len_chan (map2 cat_rows a (flip_len_chan b)) = map2 cat_rows b (flip_len_chan a)"
    using ab by (induction a b rule: list_all2_induct)
      (simp_all add: flip_len_chan_def flip_matrix_cat_rows)
  then show ?thesis
    using same_lengths_sym [OF ab] by (simp add: torch_cat_Inr same_lengths_flip_right y)
qed

subsection \<open>The reverse complement of an id sequence\<close>

lemma mapM_mapM_Inr:
  assumes "\<And>r x. r \<in> set xs \<Longrightarrow> x \<in> set r \<Longrightarrow> f x = Inr (g x)"
  shows "mapM (mapM f) xs = Inr (map (map g) xs)"
  using assms by (intro mapM_Inr) simp

lemma complement_involutionD:
  assumes "complement_involution V t" and "0 \<le> i" and "i < int V"
  shows "\<exists>j. tensor_index t i = Inr j \<and> 0 \<le> j \<and> j < int V \<and> tensor_index t j = Inr i"
proof -
  have "nat i \<in> set [0..<V]" using assms(2,3) by simp
  with assms(1) have
    "case tensor_index t (int (nat i)) of Inl e \<Rightarrow> False
     | Inr j \<Rightarrow> 0 \<le> j \<and> j < int V \<and> tensor_index t j = Inr (int (nat i))"
    unfolding complement_involution_def list_all_iff by blast
  then show ?thesis
    using assms(2) by (cases "tensor_index t i") simp_all
qed

lemma compl_props:
  assumes "complement_involution V t" and "0 \<le> i" and "i < int V"
  shows "tensor_index t i = Inr (compl t i)" and "0 \<le> compl t i" and "compl t i < int V"
    and "compl t (compl t i) = i"
  using complement_involutionD [OF assms] by (auto simp: compl_def)

lemma RCPSEmbedding_rc_closed_form:
  assumes "complement_involution V (complement_map self)" and "ids_in_range V S"
  shows "RCPSEmbedding_rc self S = Inr (map (\<lambda>r. map (compl (complement_map self)) (rev r)) S)"
proof -
  have "mapM (mapM (tensor_index (complement_map self))) (flip_ids S)
      = Inr (map (map (compl (complement_map self))) (flip_ids S))"
  proof (rule mapM_mapM_Inr)
    fix r x assume "r \<in> set (flip_ids S)" and "x \<in> set r"
    then have "0 \<le> x \<and> x < int V"
      using assms(2) by (auto simp: ids_in_range_def flip_ids_def list_all_iff)
    then show "tensor_index (complement_map self) x = Inr (compl (complement_map self) x)"
      using compl_props(1) [OF assms(1)] by simp
  qed
  then show ?thesis
    by (simp add: RCPSEmbedding_rc_def vmap_complement_def flip_ids_def o_def)
qed

lemma ids_in_range_rc:
  assumes "complement_involution V t" and "ids_in_range V S"
  shows "ids_in_range V (map (\<lambda>r. map (compl t) (rev r)) S)"
  using assms(2) compl_props(2,3) [OF assms(1)]
  by (auto simp: ids_in_range_def list_all_iff)

text \<open>
  Claim C3, amended.  When the complement lookup table of the module, the table that the
  constructor builds from the supplied map and \<open>RCPSEmbedding.rc\<close> indexes, is an
  involution on the vocabulary \<open>[0, V)\<close> (it maps ids to ids, and looking an id up twice
  returns it), then for every id sequence \<open>S\<close> over the vocabulary, \<open>RCPSEmbedding.rc\<close>
  applied twice to \<open>S\<close> raises nothing and returns \<open>S\<close>.
\<close>

theorem RCPSEmbedding_rc_involution:
  assumes "complement_involution V (complement_map self)" and "ids_in_range V S"
  shows "rbind (RCPSEmbedding_rc self S) (RCPSEmbedding_rc self) = Inr S"
proof -
  let ?c = "compl (complement_map self)"
  let ?S' = "map (\<lambda>r. map ?c (rev r)) S"
  have "RCPSEmbedding_rc self ?S' = Inr (map (\<lambda>r. map ?c (rev r)) ?S')"
    using assms by (intro RCPSEmbedding_rc_closed_form ids_in_range_rc)
  also have "map (\<lambda>r. map ?c (rev r)) ?S' = map (\<lambda>r. map (\<lambda>i. ?c (?c i)) r) S"
    by (simp add: rev_map o_def)
  also have "\<dots> = map (\<lambda>r. r) S"
  proof (intro map_cong refl)
    fix r assume "r \<in> set S"
    then have "\<forall>i \<in> set r. 0 \<le> i \<and> i < int V"
      using assms(2) by (auto simp: ids_in_range_def list_all_iff)
    then show "map (\<lambda>i. ?c (?c i)) r = r"
      using compl_props(4) [OF assms(1)] by (simp add: map_idI)
  qed
  finally show ?thesis
    by (simp add: RCPSEmbedding_rc_closed_form [OF assms])
qed

theorem RCPSEmbedding_rc_involution_witness:
  "complement_involution 4 [1, 0, 3, 2] \<and> ids_in_range 4 [[0, 2, 3, 1, 1]]
   \<and> RCPSEmbedding_rc \<lparr>complement_map = [1, 0, 3, 2], embedding = ([]::int list list), proj = \<lparr>weight = [], bias = None\<rparr>\<rparr> [[0, 2, 3, 1, 1]]
       = Inr [[0, 0, 2, 3, 1]]
   \<and> RCPSEmbedding_rc \<lparr>complement_map = [1, 0, 3, 2], embedding = ([]::int list list), proj = \<lparr>weight = [], bias = None\<rparr>\<rparr> [[0, 0, 2, 3, 1]]
       = Inr [[0, 2, 3, 1, 1]]"
proof -
  have a: "complement_involution 4 [1, 0, 3, 2]"
    by (simp add: complement_involution_def tensor_index_def upt_rec numeral_eq_Suc)
  have b: "ids_in_range 4 [[0, 2, 3, 1, 1]]"
    by (simp add: ids_in_range_def)
  have c: "RCPSEmbedding_rc \<lparr>complement_map = [1, 0, 3, 2], embedding = ([]::int list list), proj = \<lparr>weight = [], bias = None\<rparr>\<rparr> [[0, 2, 3, 1, 1]]
       = Inr [[0, 0, 2, 3, 1]]"
    by (simp add: RCPSEmbedding_rc_def vmap_complement_def flip_ids_def tensor_index_def)
  from RCPSEmbedding_rc_involution [of 4 "\<lparr>complement_map = [1, 0, 3, 2], embedding = ([]::int list list), proj = \<lparr>weight = [], bias = None\<rparr>\<rparr>" "[[0, 2, 3, 1, 1]]"]
    a b c show ?thesis by simp
qed

text \<open>
  That the supplied map is an involution, read from keys to values, is not enough.  The
  map below is one, written pair by pair; the constructor accepts it and builds the
  table \<open>[3, 0, 2, 1]\<close>, which sends 0 to 3 and 3 to 1, and \<open>RCPSEmbedding.rc\<close> applied
  twice to a sequence over the vocabulary does not return the sequence.
\<close>

theorem RCPSEmbedding_rc_involution_counterexample:
  "dict_involution pairwise_complement_map
   \<and> RCPSEmbedding_init row_index_init ones_init zero_bias_init 4 2 pairwise_complement_map
       = Inr pairwise_embedding
   \<and> ids_in_range 4 [[0, 1]]
   \<and> RCPSEmbedding_rc pairwise_embedding [[0, 1]] = Inr [[0, 3]]
   \<and> RCPSEmbedding_rc pairwise_embedding [[0, 3]] = Inr [[1, 3]]
   \<and> rbind (RCPSEmbedding_rc pairwise_embedding [[0, 1]]) (RCPSEmbedding_rc pairwise_embedding)
       \<noteq> Inr [[0, 1]]"
  by (simp add: dict_involution_def dict_get_def RCPSEmbedding_init_def torch_tensor_long_def
      OrderedDict_values_def nn_Embedding_def nn_Linear_def torch_empty_def ids_in_range_def
      RCPSEmbedding_rc_def vmap_complement_def flip_ids_def tensor_index_def
      pairwise_complement_map_def pairwise_embedding_def row_index_init_def ones_init_def
      zero_bias_init_def upt_rec numeral_eq_Suc)

subsection \<open>RCPSEmbedding is equivariant\<close>

lemma linear_row_wf:
  assumes "Linear_wf i o' l" and "length v = i"
  shows "linear_row (weight l) (bias l) v = Inr (proj_row l v)"
  using assms by (auto simp: Linear_wf_def linear_row_def proj_row_def split: option.splits)

lemma length_proj_row:
  assumes "Linear_wf i o' l"
  shows "length (proj_row l v) = o'"
  using assms by (auto simp: Linear_wf_def proj_row_def split: option.splits)

lemma F_embedding_in_range:
  assumes "length w = V" and "ids_in_range V S"
  shows "F_embedding S w = Inr (map (map (\<lambda>i. w ! nat i)) S)"
  unfolding F_embedding_def
proof (rule mapM_mapM_Inr)
  fix r x assume "r \<in> set S" and "x \<in> set r"
  then have "0 \<le> x \<and> x < int V"
    using assms(2) by (auto simp: ids_in_range_def list_all_iff)
  then show "embedding_row w x = Inr (w ! nat x)"
    using assms(1) by (simp add: embedding_row_def)
qed

lemma embed_then_project:
  assumes "RCPSEmbedding_wf V d self" and "ids_in_range V S"
  shows "rbind (F_embedding S (embedding self)) (Linear_forward (proj self))
           = Inr (map (map (embed_proj self)) S)"
proof -
  have wf: "Linear_wf d (d div 2) (proj self)" and len: "length (embedding self) = V"
    and rows: "\<forall>r \<in> set (embedding self). length r = d"
    using assms(1) by (simp_all add: RCPSEmbedding_wf_def list_all_iff)
  have "mapM (mapM (linear_row (weight (proj self)) (bias (proj self))))
            (map (map (\<lambda>i. embedding self ! nat i)) S)
      = Inr (map (map (proj_row (proj self))) (map (map (\<lambda>i. embedding self ! nat i)) S))"
  proof (rule mapM_mapM_Inr)
    fix r v assume "r \<in> set (map (map (\<lambda>i. embedding self ! nat i)) S)" and "v \<in> set r"
    then obtain r' i where "r' \<in> set S" and "i \<in> set r'" and v: "v = embedding self ! nat i"
      by auto
    then have "0 \<le> i \<and> i < int V"
      using assms(2) by (auto simp: ids_in_range_def list_all_iff)
    then have "nat i < length (embedding self)"
      using len by auto
    then have "v \<in> set (embedding self)"
      unfolding v by (rule nth_mem)
    then have "length v = d" using rows by simp
    then show "linear_row (weight (proj self)) (bias (proj self)) v = Inr (proj_row (proj self) v)"
      by (rule linear_row_wf [OF wf])
  qed
  then show ?thesis
    by (simp add: F_embedding_in_range [OF len assms(2)] Linear_forward_def F_linear_def
        embed_proj_def o_def)
qed

lemma torch_cat_pointwise:
  "torch_cat (map (map f) S) (map (map g) S) = Inr (map (map (\<lambda>i. f i @ g i)) S)"
proof -
  have "list_all2 (\<lambda>m n. length m = length n) (map (map f) S) (map (map g) S)"
    by (simp add: list_all2_conv_all_nth)
  moreover have "cat_rows (map f r) (map g r) = map (\<lambda>i. f i @ g i) r" for r
    unfolding cat_rows_def by (induction r) simp_all
  then have "map2 cat_rows (map (map f) S) (map (map g) S) = map (map (\<lambda>i. f i @ g i)) S"
    by (induction S) simp_all
  ultimately show ?thesis by (simp add: torch_cat_def)
qed

lemma RCPSEmbedding_forward_closed_form:
  assumes "RCPSEmbedding_wf V d self" and "complement_involution V (complement_map self)"
    and "ids_in_range V S"
  shows "RCPSEmbedding_forward self S
           = Inr (map (map (\<lambda>i. embed_proj self i
                                 @ rev (embed_proj self (compl (complement_map self) i)))) S)"
proof -
  let ?c = "compl (complement_map self)"
  let ?S' = "map (\<lambda>r. map ?c (rev r)) S"
  have fwd: "rbind (F_embedding S (embedding self)) (Linear_forward (proj self))
           = Inr (map (map (embed_proj self)) S)"
    using assms(1,3) by (rule embed_then_project)
  have rc: "RCPSEmbedding_rc self S = Inr ?S'"
    using assms(2,3) by (rule RCPSEmbedding_rc_closed_form)
  have "ids_in_range V ?S'"
    using assms(2,3) by (rule ids_in_range_rc)
  with assms(1) have bwd: "rbind (F_embedding ?S' (embedding self)) (Linear_forward (proj self))
           = Inr (map (map (embed_proj self)) ?S')"
    by (rule embed_then_project)
  have flip: "flip_len_chan (map (map (embed_proj self)) ?S')
           = map (map (\<lambda>i. rev (embed_proj self (?c i)))) S"
    by (simp add: flip_len_chan_def flip_matrix_def rev_map o_def)
  obtain e where e: "F_embedding S (embedding self) = Inr e"
    using fwd by (cases "F_embedding S (embedding self)") simp_all
  obtain e' where e': "F_embedding ?S' (embedding self) = Inr e'"
    using bwd by (cases "F_embedding ?S' (embedding self)") simp_all
  from fwd e have p: "Linear_forward (proj self) e = Inr (map (map (embed_proj self)) S)"
    by simp
  from bwd e' have p': "Linear_forward (proj self) e' = Inr (map (map (embed_proj self)) ?S')"
    by simp
  show ?thesis
    unfolding RCPSEmbedding_forward_def
    by (simp only: e p rc e' p' rbind.simps flip torch_cat_pointwise)
qed

lemmas eval_defs =
  RCPSEmbedding_forward_def RCPSEmbedding_rc_def vmap_complement_def flip_ids_def
  tensor_index_def F_embedding_def embedding_row_def Linear_forward_def F_linear_def
  linear_row_def dot_def torch_cat_def cat_rows_def flip_len_chan_def flip_matrix_def
  RCPSWrapper_rc_def

text \<open>
  Claim C1, amended.  Let the module have the parameter shapes of vocabulary size \<open>V\<close>
  and even model width \<open>d\<close>, and let its complement lookup table be an involution on
  the vocabulary.  Then for every id
  sequence \<open>S\<close> over the vocabulary nothing raises, and \<open>RCPSEmbedding.forward\<close> on the
  reverse complement of \<open>S\<close> is the flip transform (flip along length and along
  channels, which swaps and mirrors the two channel halves) of \<open>RCPSEmbedding.forward\<close>
  on \<open>S\<close>.
\<close>

theorem RCPSEmbedding_equivariant:
  assumes "RCPSEmbedding_wf V d self" and "complement_involution V (complement_map self)"
    and "ids_in_range V S"
  shows "\<exists>S' y. RCPSEmbedding_rc self S = Inr S' \<and> RCPSEmbedding_forward self S = Inr y
           \<and> RCPSEmbedding_forward self S' = Inr (RCPSWrapper_rc y)"
proof -
  let ?c = "compl (complement_map self)"
  let ?h = "embed_proj self"
  let ?S' = "map (\<lambda>r. map ?c (rev r)) S"
  let ?y = "map (map (\<lambda>i. ?h i @ rev (?h (?c i)))) S"
  have rc: "RCPSEmbedding_rc self S = Inr ?S'"
    using assms(2,3) by (rule RCPSEmbedding_rc_closed_form)
  have y: "RCPSEmbedding_forward self S = Inr ?y"
    using assms by (rule RCPSEmbedding_forward_closed_form)
  have "ids_in_range V ?S'"
    using assms(2,3) by (rule ids_in_range_rc)
  with assms(1,2) have "RCPSEmbedding_forward self ?S'
      = Inr (map (map (\<lambda>i. ?h i @ rev (?h (?c i)))) ?S')"
    by (rule RCPSEmbedding_forward_closed_form)
  also have "map (map (\<lambda>i. ?h i @ rev (?h (?c i)))) ?S' = RCPSWrapper_rc ?y"
  proof -
    have "map (\<lambda>i. ?h (?c i) @ rev (?h (?c (?c i)))) (rev r) = map (\<lambda>i. ?h (?c i) @ rev (?h i)) (rev r)"
      if "r \<in> set S" for r
    proof (intro map_cong refl)
      fix i assume "i \<in> set (rev r)"
      with that have "0 \<le> i \<and> i < int V"
        using assms(3) by (auto simp: ids_in_range_def list_all_iff)
      then show "?h (?c i) @ rev (?h (?c (?c i))) = ?h (?c i) @ rev (?h i)"
        using compl_props(4) [OF assms(2)] by simp
    qed
    then show ?thesis
      by (simp add: RCPSWrapper_rc_def flip_len_chan_def flip_matrix_def rev_map o_def)
  qed
  finally show ?thesis using rc y by blast
qed

theorem RCPSEmbedding_equivariant_witness:
  "RCPSEmbedding_wf 4 2 example_embedding
   \<and> complement_involution 4 (complement_map example_embedding)
   \<and> ids_in_range 4 [[0, 2, 3]]
   \<and> RCPSEmbedding_rc example_embedding [[0, 2, 3]] = Inr [[2, 3, 1]]
   \<and> RCPSEmbedding_forward example_embedding [[0, 2, 3]] = Inr [[[2, 3], [9, 20], [20, 9]]]
   \<and> RCPSEmbedding_forward example_embedding [[2, 3, 1]]
        = Inr (RCPSWrapper_rc [[[2, 3], [9, 20], [20, 9]]])"
proof -
  have a: "RCPSEmbedding_wf 4 2 example_embedding"
    by (simp add: RCPSEmbedding_wf_def Linear_wf_def example_embedding_def)
  have b: "complement_involution 4 (complement_map example_embedding)"
    by (simp add: complement_involution_def tensor_index_def example_embedding_def
        upt_rec numeral_eq_Suc)
  have c: "ids_in_range 4 [[0, 2, 3]]"
    by (simp add: ids_in_range_def)
  have r: "RCPSEmbedding_rc example_embedding [[0, 2, 3]] = Inr [[2, 3, 1]]"
    by (simp add: eval_defs example_embedding_def)
  have y: "RCPSEmbedding_forward example_embedding [[0, 2, 3]] = Inr [[[2, 3], [9, 20], [20, 9]]]"
    by (simp add: eval_defs example_embedding_def)
  from RCPSEmbedding_equivariant [OF a b c] r y
  have "RCPSEmbedding_forward example_embedding [[2, 3, 1]]
        = Inr (RCPSWrapper_rc [[[2, 3], [9, 20], [20, 9]]])"
    by auto
  with a b c r y show ?thesis by simp
qed

text \<open>
  Without the hypothesis on the lookup table the equivariance fails, for ids in the
  vocabulary, even \<open>d_model\<close> and the parameters of a module that the constructor
  returns: the complement map supplied below is a cycle of three ids.
\<close>

theorem RCPSEmbedding_equivariant_counterexample:
  "RCPSEmbedding_init row_index_init ones_init zero_bias_init 4 2 cycle_complement_map
       = Inr cycle_embedding
   \<and> RCPSEmbedding_wf 4 2 cycle_embedding
   \<and> ids_in_range 4 [[0]]
   \<and> RCPSEmbedding_rc cycle_embedding [[0]] = Inr [[1]]
   \<and> RCPSEmbedding_forward cycle_embedding [[0]] = Inr [[[0, 2]]]
   \<and> RCPSEmbedding_forward cycle_embedding [[1]] = Inr [[[2, 4]]]
   \<and> RCPSWrapper_rc [[[0, 2::int]]] = [[[2, 0]]]
   \<and> RCPSEmbedding_forward cycle_embedding [[1]] \<noteq> Inr (RCPSWrapper_rc [[[0, 2]]])"
  by (simp add: eval_defs RCPSEmbedding_init_def torch_tensor_long_def OrderedDict_values_def
      nn_Embedding_def nn_Linear_def torch_empty_def ids_in_range_def RCPSEmbedding_wf_def
      Linear_wf_def cycle_complement_map_def cycle_embedding_def row_index_init_def
      ones_init_def zero_bias_init_def upt_rec numeral_eq_Suc)

subsection \<open>The complement lookup table built by the constructor\<close>

lemma RCPSEmbedding_init_Inr:
  assumes "RCPSEmbedding_init e w b V d m = Inr self"
  shows "torch_tensor_long (OrderedDict_values m) = Inr (complement_map self)"
  using assms unfolding RCPSEmbedding_init_def
  by (cases "torch_tensor_long (OrderedDict_values m)"; cases "nn_Embedding e V d";
      cases "nn_Linear w b d (d div 2) True") (auto split: if_splits)

lemma torch_tensor_long_Inr: "torch_tensor_long vs = Inr t \<Longrightarrow> t = vs"
  by (simp add: torch_tensor_long_def split: if_splits)

lemma tensor_index_nat: "i < length t \<Longrightarrow> tensor_index t (int i) = Inr (t ! i)"
  by (simp add: tensor_index_def)

lemma keys_out_of_order:
  assumes "map fst m \<noteq> map int [0..<length m]"
  shows "\<exists>i<length m. fst (m ! i) \<noteq> int i"
proof (rule ccontr)
  assume "\<not> ?thesis"
  then have "\<forall>i<length m. fst (m ! i) = int i" by blast
  then have "map fst m = map int [0..<length m]"
    by (intro nth_equalityI) simp_all
  with assms show False by contradiction
qed

lemma table_differs_from_dict:
  assumes "distinct (map snd m)" and "map fst m \<noteq> map int [0..<length m]"
  shows "\<exists>k. 0 \<le> k \<and> k < int (length m) \<and> dict_get m k \<noteq> table_get (map snd m) k"
proof -
  obtain i where i: "i < length m" and ne: "fst (m ! i) \<noteq> int i"
    using keys_out_of_order [OF assms(2)] by blast
  have t: "table_get (map snd m) (int i) = Some (snd (m ! i))"
    using i by (simp add: table_get_def tensor_index_nat)
  have "dict_get m (int i) \<noteq> Some (snd (m ! i))"
  proof
    assume "dict_get m (int i) = Some (snd (m ! i))"
    then have "(int i, snd (m ! i)) \<in> set m"
      by (simp add: dict_get_def map_of_SomeD)
    then obtain j where j: "j < length m" and mj: "m ! j = (int i, snd (m ! i))"
      by (auto simp: in_set_conv_nth)
    then have "map snd m ! j = map snd m ! i"
      using i by simp
    moreover have "j < length (map snd m)" and "i < length (map snd m)"
      using i j by simp_all
    ultimately have "j = i"
      using assms(1) by (simp only: nth_eq_iff_index_eq)
    with mj have "fst (m ! i) = int i" by (metis fst_conv)
    with ne show False by contradiction
  qed
  with t i show ?thesis by (intro exI [of _ "int i"]) simp
qed

text \<open>
  Claim C10, amended.  \<open>RCPSEmbedding\<close> builds its complement lookup table from the
  values of the supplied mapping in the mapping's iteration order and never consults the
  keys: whenever the constructor returns, the table is the list of the values, its entry
  at index \<open>i\<close> is the \<open>i\<close>-th value, and every mapping with the same values in the
  same order gives the same module.  So a mapping with pairwise distinct values whose
  keys are not \<open>0, \<dots>, n - 1\<close> in iteration order (\<open>n\<close> the number of its items) yields a
  lookup that differs, at some id in \<open>[0, n)\<close>, from the key-to-value reading of the
  mapping.
\<close>

theorem RCPSEmbedding_init_complement_map:
  assumes "RCPSEmbedding_init e w b V d m = Inr self"
  shows "complement_map self = map snd m
    \<and> (\<forall>i<length m. tensor_index (complement_map self) (int i) = Inr (snd (m ! i)))
    \<and> (\<forall>m'. map snd m' = map snd m \<longrightarrow> RCPSEmbedding_init e w b V d m' = Inr self)
    \<and> (distinct (map snd m) \<and> map fst m \<noteq> map int [0..<length m] \<longrightarrow>
         (\<exists>k. 0 \<le> k \<and> k < int (length m) \<and> dict_get m k \<noteq> table_get (complement_map self) k))"
proof -
  have cm: "complement_map self = map snd m"
    using torch_tensor_long_Inr [OF RCPSEmbedding_init_Inr [OF assms]]
    by (simp add: OrderedDict_values_def)
  have "\<forall>i<length m. tensor_index (complement_map self) (int i) = Inr (snd (m ! i))"
    by (simp add: cm tensor_index_nat)
  moreover have "\<forall>m'. map snd m' = map snd m \<longrightarrow> RCPSEmbedding_init e w b V d m' = Inr self"
    using assms by (simp add: RCPSEmbedding_init_def OrderedDict_values_def)
  moreover have "distinct (map snd m) \<and> map fst m \<noteq> map int [0..<length m] \<longrightarrow>
         (\<exists>k. 0 \<le> k \<and> k < int (length m) \<and> dict_get m k \<noteq> table_get (complement_map self) k)"
    using table_differs_from_dict [of m] by (simp add: cm)
  ultimately show ?thesis using cm by blast
qed

lemmas init_defs =
  RCPSEmbedding_init_def torch_tensor_long_def OrderedDict_values_def nn_Embedding_def
  nn_Linear_def torch_empty_def

theorem RCPSEmbedding_init_complement_map_witness:
  "RCPSEmbedding_init (\<lambda>i j. 0) (\<lambda>i j. 0) (\<lambda>i. 0) 2 2 [(1, 0), (0, 1)]
      = Inr \<lparr>complement_map = [0, 1], embedding = [[0, 0], [0, 0::int]],
             proj = \<lparr>weight = [[0, 0]], bias = Some [0]\<rparr>\<rparr>
   \<and> tensor_index [0, 1] 0 = Inr (0::int) \<and> tensor_index [0, 1] 1 = Inr (1::int)
   \<and> RCPSEmbedding_init (\<lambda>i j. 0) (\<lambda>i j. 0) (\<lambda>i. 0) 2 2 [(7, 0), (5, 1)]
      = Inr \<lparr>complement_map = [0, 1], embedding = [[0, 0], [0, 0::int]],
             proj = \<lparr>weight = [[0, 0]], bias = Some [0]\<rparr>\<rparr>
   \<and> distinct (map snd [(1, 0), (0, 1::int)]) \<and> map fst [(1, 0), (0, 1::int)] \<noteq> map int [0..<2]
   \<and> (\<exists>k. 0 \<le> k \<and> k < 2 \<and> dict_get [(1, 0), (0, 1)] k \<noteq> table_get [0, 1] k)"
proof -
  have h: "RCPSEmbedding_init (\<lambda>i j. 0) (\<lambda>i j. 0) (\<lambda>i. 0) 2 2 [(1, 0), (0, 1)]
      = Inr \<lparr>complement_map = [0, 1], embedding = [[0, 0], [0, 0::int]],
             proj = \<lparr>weight = [[0, 0]], bias = Some [0]\<rparr>\<rparr>"
    by (simp add: init_defs upt_rec numeral_eq_Suc)
  have d: "distinct (map snd [(1, 0), (0, 1::int)]) \<and> map fst [(1, 0), (0, 1::int)] \<noteq> map int [0..<2]"
    by (simp add: upt_rec numeral_eq_Suc)
  from RCPSEmbedding_init_complement_map [OF h] d
  have "\<exists>k. 0 \<le> k \<and> k < 2 \<and> dict_get [(1, 0), (0, 1)] k \<noteq> table_get [0, 1] k"
    and "RCPSEmbedding_init (\<lambda>i j. 0) (\<lambda>i j. 0) (\<lambda>i. 0) 2 2 [(7, 0), (5, 1)]
      = Inr \<lparr>complement_map = [0, 1], embedding = [[0, 0], [0, 0::int]],
             proj = \<lparr>weight = [[0, 0]], bias = Some [0]\<rparr>\<rparr>"
    and "tensor_index [0, 1] 0 = Inr (0::int)" and "tensor_index [0, 1] 1 = Inr (1::int)"
    by (simp_all add: tensor_index_def)
  with h d show ?thesis by simp
qed

text \<open>
  With repeated values the keys can be out of order and the table still agree with the
  key-to-value reading on the whole vocabulary.
\<close>

theorem RCPSEmbedding_init_complement_map_counterexample:
  "RCPSEmbedding_init zeros_init zeros_init zero_bias_init 2 2 [(1, 0), (0, 0)]
      = Inr \<lparr>complement_map = [0, 0], embedding = [[0, 0], [0, 0::int]],
             proj = \<lparr>weight = [[0, 0]], bias = Some [0]\<rparr>\<rparr>
   \<and> map fst [(1, 0), (0, 0::int)] \<noteq> map int [0..<2]
   \<and> dict_get [(1, 0), (0, 0)] 0 = table_get [0, 0] 0
   \<and> dict_get [(1, 0), (0, 0)] 1 = table_get [0, 0] 1"
  by (simp add: init_defs dict_get_def table_get_def tensor_index_def zeros_init_def
      zero_bias_init_def upt_rec numeral_eq_Suc)

subsection \<open>The assertions of the constructors\<close>

lemma RCPSEmbedding_init_odd:
  assumes "d_model mod 2 \<noteq> 0"
  shows "\<exists>err. RCPSEmbedding_init e w b vocab_size d_model m = Inl err"
  using assms unfolding RCPSEmbedding_init_def
  by (cases "torch_tensor_long (OrderedDict_values m)"; cases "nn_Embedding e vocab_size d_model")
     simp_all

lemma RCPSWrapperKeepDim_init_odd:
  assumes "dim' mod 2 \<noteq> 0"
  shows "RCPSWrapperKeepDim_init w b f dim' = Inl (AssertionError ''dim must be even!'')"
  using assms by (simp add: RCPSWrapperKeepDim_init_def)

lemma nn_Linear_wf:
  assumes "0 \<le> i" and "0 \<le> o'"
  shows "\<exists>l. nn_Linear w b i o' has_bias = Inr l \<and> Linear_wf (nat i) (nat o') l"
  using assms by (simp add: nn_Linear_def torch_empty_def Linear_wf_def list_all_iff)

lemma RCPSEmbedding_init_even:
  assumes "d_model mod 2 = 0" and "0 \<le> d_model" and "0 \<le> vocab_size"
    and "list_all (\<lambda>v. - (2 ^ 63) \<le> v \<and> v < 2 ^ 63) (map snd m)"
  shows "\<exists>self. RCPSEmbedding_init e w b vocab_size d_model m = Inr self
           \<and> RCPSEmbedding_wf (nat vocab_size) (nat d_model) self"
proof -
  have "0 \<le> d_model div 2" using assms(2) by simp
  from nn_Linear_wf [OF assms(2) this] obtain l where
    l: "nn_Linear w b d_model (d_model div 2) True = Inr l"
    and wf: "Linear_wf (nat d_model) (nat (d_model div 2)) l" by blast
  have half: "nat (d_model div 2) = nat d_model div 2"
    using assms(2) by (simp add: nat_div_distrib)
  have even: "nat d_model mod 2 = 0"
    using assms(1,2) by (metis nat_0 nat_mod_distrib nat_numeral zero_le_numeral)
  show ?thesis
    using assms l wf even
    by (simp add: RCPSEmbedding_init_def torch_tensor_long_def OrderedDict_values_def
        nn_Embedding_def torch_empty_def RCPSEmbedding_wf_def list_all_iff half)
qed

lemma RCPSWrapperKeepDim_init_even:
  assumes "dim' mod 2 = 0" and "0 \<le> dim'"
  shows "\<exists>self. RCPSWrapperKeepDim_init w b f dim' = Inr self
           \<and> Linear_wf (nat dim') (nat dim' div 2) (keepdim_proj self)"
proof -
  have "0 \<le> dim' div 2" using assms(2) by simp
  from nn_Linear_wf [OF assms(2) this] obtain l where
    "nn_Linear w b dim' (dim' div 2) True = Inr l"
    and "Linear_wf (nat dim') (nat (dim' div 2)) l" by blast
  then show ?thesis
    using assms by (simp add: RCPSWrapperKeepDim_init_def nat_div_distrib)
qed

lemma RCPSAddNormWrapperKeepDim_init_no_check:
  assumes "0 \<le> dim'"
  shows "\<exists>self. RCPSAddNormWrapperKeepDim_init w b nf nd dim' = Inr self
           \<and> Linear_wf (nat dim') (nat dim' div 2) (res_proj self)"
proof -
  have "0 \<le> dim' div 2" using assms by simp
  from nn_Linear_wf [OF assms this] obtain l where
    "nn_Linear w b dim' (dim' div 2) False = Inr l"
    and "Linear_wf (nat dim') (nat (dim' div 2)) l" by blast
  then show ?thesis
    using assms by (simp add: RCPSAddNormWrapperKeepDim_init_def nat_div_distrib)
qed

text \<open>
  Claim C4.  \<open>RCPSEmbedding\<close> and \<open>RCPSWrapperKeepDim\<close> raise on every odd
  dimensionality (lemmas \<open>RCPSEmbedding_init_odd\<close> and \<open>RCPSWrapperKeepDim_init_odd\<close>).
  The constructor of \<open>RCPSAddNormWrapperKeepDim\<close> has no such assertion: for the odd
  dimensionality 3 it returns a module whose residual projection maps 3 channels to 1.
\<close>

theorem RCPSAddNormWrapperKeepDim_init_odd_dim:
  "RCPSAddNormWrapperKeepDim_init w b nf nd 3
     = Inr \<lparr>norm_f = nf, norm_dtype = nd, res_proj = \<lparr>weight = [[w 0 0, w 0 1, w 0 2]], bias = None\<rparr>\<rparr>"
  by (simp add: RCPSAddNormWrapperKeepDim_init_def nn_Linear_def torch_empty_def upt_rec numeral_eq_Suc)

text \<open>
  The forward pass of that module then returns 2 channels for an input of 3 channels.
\<close>

lemma RCPSAddNormWrapperKeepDim_forward_odd_dim:
  "RCPSAddNormWrapperKeepDim_forward
     \<lparr>norm_f = Inr, norm_dtype = id, res_proj = \<lparr>weight = [[1, 1, 1]], bias = None\<rparr>\<rparr>
     [[[1, 2, 3::int]]] None
   = Inr ([[[6, 6]]], [[[6, 6]]])"
  by (simp add: RCPSAddNormWrapperKeepDim_forward_def RCPSAddNormWrapper_rc_def Linear_forward_def
      F_linear_def linear_row_def dot_def tensor_to_def torch_cat_def cat_rows_def
      flip_len_chan_def flip_matrix_def)

subsection \<open>Shapes\<close>

lemma has_shapeD:
  assumes "has_shape B L C x"
  shows "length x = B" and "\<And>m. m \<in> set x \<Longrightarrow> length m = L"
    and "\<And>m r. m \<in> set x \<Longrightarrow> r \<in> set m \<Longrightarrow> length r = C"
  using assms by (auto simp: has_shape_def list_all_iff)

lemma has_shapeI:
  assumes "length x = B" and "\<And>m. m \<in> set x \<Longrightarrow> length m = L"
    and "\<And>m r. m \<in> set x \<Longrightarrow> r \<in> set m \<Longrightarrow> length r = C"
  shows "has_shape B L C x"
  using assms by (auto simp: has_shape_def list_all_iff)

lemma has_shape_flip: "has_shape B L C (flip_len_chan x) = has_shape B L C x"
  by (auto simp: has_shape_def list_all_iff flip_len_chan_def flip_matrix_def)

lemma has_shape_map_rows:
  assumes "has_shape B L C x" and "\<And>r. length r = C \<Longrightarrow> length (f r) = C'"
  shows "has_shape B L C' (map (map f) x)"
  using assms by (auto simp: has_shape_def list_all_iff)

lemma same_lengths_shapes:
  assumes "has_shape B L C a" and "has_shape B L C' b"
  shows "list_all2 (\<lambda>m n. length m = length n) a b"
  using has_shapeD(1,2) [OF assms(1)] has_shapeD(1,2) [OF assms(2)]
  by (simp add: list_all2_conv_all_nth)

lemma has_shape_cat:
  assumes "has_shape B L C a" and "has_shape B L C' b"
  shows "has_shape B L (C + C') (map2 cat_rows a b)"
proof (rule has_shapeI)
  show "length (map2 cat_rows a b) = B"
    using has_shapeD(1) [OF assms(1)] has_shapeD(1) [OF assms(2)] by simp
next
  fix m assume "m \<in> set (map2 cat_rows a b)"
  then obtain p q where pq: "(p, q) \<in> set (zip a b)" and m: "m = cat_rows p q" by auto
  then have p: "p \<in> set a" and q: "q \<in> set b"
    by (auto dest: set_zip_leftD set_zip_rightD)
  show "length m = L"
    using has_shapeD(2) [OF assms(1) p] has_shapeD(2) [OF assms(2) q]
    by (simp add: m cat_rows_def)
  fix r assume "r \<in> set m"
  then obtain u v where uv: "(u, v) \<in> set (zip p q)" and r: "r = u @ v"
    by (auto simp: m cat_rows_def)
  then have "u \<in> set p" and "v \<in> set q"
    by (auto dest: set_zip_leftD set_zip_rightD)
  then show "length r = C + C'"
    using has_shapeD(3) [OF assms(1) p] has_shapeD(3) [OF assms(2) q] by (simp add: r)
qed

lemma torch_cat_shapes:
  assumes "has_shape B L C a" and "has_shape B L C' b"
  shows "torch_cat a b = Inr (map2 cat_rows a b)"
  using same_lengths_shapes [OF assms] by (simp add: torch_cat_def)

subsection \<open>Elementwise addition\<close>

lemma broadcast2_same_length:
  assumes "length xs = length ys"
    and "\<And>x y. (x, y) \<in> set (zip xs ys) \<Longrightarrow> f x y = Inr (g x y)"
  shows "broadcast2 f xs ys = Inr (map2 g xs ys)"
proof -
  have "mapM (\<lambda>(x, y). f x y) (zip xs ys) = Inr (map (\<lambda>(x, y). g x y) (zip xs ys))"
    using assms(2) by (intro mapM_Inr) auto
  then show ?thesis using assms(1) by (simp add: broadcast2_def)
qed

lemma tensor_add_same_shape:
  assumes "has_shape B L C a" and "has_shape B L C b"
  shows "tensor_add a b = Inr (add3 a b)"
  unfolding tensor_add_def add3_def
proof (rule broadcast2_same_length)
  show "length a = length b"
    using has_shapeD(1) [OF assms(1)] has_shapeD(1) [OF assms(2)] by simp
next
  fix m n assume "(m, n) \<in> set (zip a b)"
  then have m: "m \<in> set a" and n: "n \<in> set b"
    by (auto dest: set_zip_leftD set_zip_rightD)
  show "broadcast2 (broadcast2 (\<lambda>x y. Inr (x + y))) m n = Inr (map2 (map2 (+)) m n)"
  proof (rule broadcast2_same_length)
    show "length m = length n"
      using has_shapeD(2) [OF assms(1) m] has_shapeD(2) [OF assms(2) n] by simp
  next
    fix r s assume "(r, s) \<in> set (zip m n)"
    then have "r \<in> set m" and "s \<in> set n"
      by (auto dest: set_zip_leftD set_zip_rightD)
    then have "length r = length s"
      using has_shapeD(3) [OF assms(1) m] has_shapeD(3) [OF assms(2) n] by simp
    then show "broadcast2 (\<lambda>x y. Inr (x + y)) r s = Inr (map2 (+) r s)"
      by (intro broadcast2_same_length) simp_all
  qed
qed

lemma add3_pointwise:
  "add3 (map (map f) x) (map (map g) x) = map (map (\<lambda>r. map2 (+) (f r) (g r))) x"
proof -
  have "map2 (map2 (+)) (map f m) (map g m) = map (\<lambda>r. map2 (+) (f r) (g r)) m" for m
    by (induction m) simp_all
  then show ?thesis
    unfolding add3_def by (induction x) simp_all
qed

subsection \<open>RCPSWrapper is equivariant\<close>

text \<open>
  Claim C2.  For every wrapped submodule that returns, on the input tensor \<open>x\<close> and on
  the flip transform of \<open>x\<close> (flip along length and channel axes), tensors of one batch
  and length size, \<open>RCPSWrapper.forward\<close> returns on \<open>x\<close> and on the flip transform of
  \<open>x\<close>, and its result on the flip transform of \<open>x\<close> is the flip transform of its
  result on \<open>x\<close>; the result has the channels of both branches.  The submodule is any
  function of the input tensor (a function is deterministic); that it be pointwise in the
  channels or shift invariant along the length is not needed, so the statement covers
  every submodule the claim speaks of.
\<close>

theorem RCPSWrapper_equivariant:
  assumes "submodule self x = Inr a" and "submodule self (flip_len_chan x) = Inr b"
    and "has_shape B L C a" and "has_shape B L C' b"
  shows "\<exists>y. RCPSWrapper_forward self x = Inr y \<and> has_shape B L (C + C') y
           \<and> RCPSWrapper_forward self (flip_len_chan x) = Inr (flip_len_chan y)"
proof -
  let ?y = "map2 cat_rows a (flip_len_chan b)"
  have fb: "has_shape B L C' (flip_len_chan b)"
    using assms(4) by (simp add: has_shape_flip)
  have cat: "torch_cat a (flip_len_chan b) = Inr ?y"
    using assms(3) fb by (rule torch_cat_shapes)
  have shape: "has_shape B L (C + C') ?y"
    using assms(3) fb by (rule has_shape_cat)
  have fwd: "RCPSWrapper_forward self x = Inr ?y"
    unfolding RCPSWrapper_forward_def RCPSWrapper_rc_def
    by (simp only: assms(1,2) rbind.simps cat)
  have "torch_cat b (flip_len_chan a) = Inr (flip_len_chan ?y)"
    using cat by (rule torch_cat_flip)
  then have "RCPSWrapper_forward self (flip_len_chan x) = Inr (flip_len_chan ?y)"
    unfolding RCPSWrapper_forward_def RCPSWrapper_rc_def
    by (simp only: assms(1,2) rbind.simps flip_len_chan_involution)
  with fwd shape show ?thesis by blast
qed

theorem RCPSWrapper_equivariant_witness:
  "submodule drop_first_wrapper [[[1, 2], [3, 4], [5, 6]]] = Inr [[[3, 4], [5, 6]]]
   \<and> flip_len_chan [[[1, 2], [3, 4], [5, 6::int]]] = [[[6, 5], [4, 3], [2, 1]]]
   \<and> submodule drop_first_wrapper [[[6, 5], [4, 3], [2, 1]]] = Inr [[[4, 3], [2, 1]]]
   \<and> has_shape 1 2 2 [[[3, 4], [5, 6::int]]] \<and> has_shape 1 2 2 [[[4, 3], [2, 1::int]]]
   \<and> RCPSWrapper_forward drop_first_wrapper [[[1, 2], [3, 4], [5, 6]]]
        = Inr [[[3, 4, 1, 2], [5, 6, 3, 4]]]
   \<and> flip_len_chan [[[3, 4, 1, 2], [5, 6, 3, 4::int]]] = [[[4, 3, 6, 5], [2, 1, 4, 3]]]
   \<and> RCPSWrapper_forward drop_first_wrapper [[[6, 5], [4, 3], [2, 1]]]
        = Inr [[[4, 3, 6, 5], [2, 1, 4, 3]]]"
proof -
  have f: "flip_len_chan [[[1, 2], [3, 4], [5, 6::int]]] = [[[6, 5], [4, 3], [2, 1]]]"
    and g: "flip_len_chan [[[3, 4, 1, 2], [5, 6, 3, 4::int]]] = [[[4, 3, 6, 5], [2, 1, 4, 3]]]"
    by (simp_all add: flip_len_chan_def flip_matrix_def)
  have a: "submodule drop_first_wrapper [[[1, 2], [3, 4], [5, 6]]] = Inr [[[3, 4], [5, 6]]]"
    by (simp add: drop_first_wrapper_def)
  have b: "submodule drop_first_wrapper (flip_len_chan [[[1, 2], [3, 4], [5, 6]]])
        = Inr [[[4, 3], [2, 1]]]"
    by (simp add: drop_first_wrapper_def f)
  have s: "has_shape 1 2 2 [[[3, 4], [5, 6::int]]]" and s': "has_shape 1 2 2 [[[4, 3], [2, 1::int]]]"
    by (simp_all add: has_shape_def)
  have y: "RCPSWrapper_forward drop_first_wrapper [[[1, 2], [3, 4], [5, 6]]]
        = Inr [[[3, 4, 1, 2], [5, 6, 3, 4]]]"
    by (simp add: RCPSWrapper_forward_def RCPSWrapper_rc_def drop_first_wrapper_def
        flip_len_chan_def flip_matrix_def torch_cat_def cat_rows_def)
  from RCPSWrapper_equivariant [OF a b s s'] y
  have "RCPSWrapper_forward drop_first_wrapper (flip_len_chan [[[1, 2], [3, 4], [5, 6]]])
        = Inr (flip_len_chan [[[3, 4, 1, 2], [5, 6, 3, 4]]])"
    by auto
  then have "RCPSWrapper_forward drop_first_wrapper [[[6, 5], [4, 3], [2, 1]]]
        = Inr [[[4, 3, 6, 5], [2, 1, 4, 3]]]"
    by (simp only: f g)
  with a b s s' y f g show ?thesis by simp
qed

subsection \<open>RCPSLMHead\<close>

lemma linear_row_no_bias:
  assumes "list_all (\<lambda>row. length row = n) w" and "length v = n"
  shows "linear_row w None v = Inr (map (dot v) w)"
  using assms by (simp add: linear_row_def)

lemma F_linear_rows:
  assumes "list_all (\<lambda>row. length row = n) w"
    and "\<And>m r. m \<in> set x \<Longrightarrow> r \<in> set m \<Longrightarrow> length (f r) = n"
  shows "F_linear (map (map f) x) w None = Inr (map (map (\<lambda>r. map (dot (f r)) w)) x)"
proof -
  have "mapM (mapM (linear_row w None)) (map (map f) x)
      = Inr (map (map (\<lambda>v. map (dot v) w)) (map (map f) x))"
  proof (rule mapM_mapM_Inr)
    fix m v assume "m \<in> set (map (map f) x)" and "v \<in> set m"
    then have "length v = n" using assms(2) by auto
    with assms(1) show "linear_row w None v = Inr (map (dot v) w)"
      by (rule linear_row_no_bias)
  qed
  then show ?thesis by (simp add: F_linear_def o_def)
qed

lemma RCPSLMHead_forward_closed_form:
  assumes "LMHead_wf n V self" and "has_shape B L (2 * n) x"
  shows "RCPSLMHead_forward self x = Inr (map (map (lm_row (RCPSLMHead_weight self))) x)"
proof -
  let ?w = "RCPSLMHead_weight self"
  have w: "list_all (\<lambda>row. length row = n) ?w" and lw: "length ?w = V"
    using assms(1) by (simp_all add: LMHead_wf_def)
  have rows: "length r = 2 * n" if "m \<in> set x" and "r \<in> set m" for m r
    using has_shapeD(3) [OF assms(2) that] .
  have a: "F_linear (first_half x) ?w None
         = Inr (map (map (\<lambda>r. map (dot (take (length r div 2) r)) ?w)) x)"
    unfolding first_half_def using w by (rule F_linear_rows) (simp add: rows)
  have "flip_chan (second_half x) = map (map (\<lambda>r. rev (drop (length r div 2) r))) x"
    by (simp add: flip_chan_def second_half_def o_def)
  moreover have "F_linear (map (map (\<lambda>r. rev (drop (length r div 2) r))) x) ?w None
         = Inr (map (map (\<lambda>r. map (dot (rev (drop (length r div 2) r))) ?w)) x)"
    using w by (rule F_linear_rows) (simp add: rows)
  ultimately have b: "F_linear (flip_chan (second_half x)) ?w None
         = Inr (map (map (\<lambda>r. map (dot (rev (drop (length r div 2) r))) ?w)) x)"
    by simp
  let ?f = "\<lambda>r. map (dot (take (length r div 2) r)) ?w"
  let ?g = "\<lambda>r. rev (map (dot (rev (drop (length r div 2) r))) ?w)"
  have c: "flip_chan (map (map (\<lambda>r. map (dot (rev (drop (length r div 2) r))) ?w)) x)
         = map (map ?g) x"
    by (simp add: flip_chan_def o_def)
  have "has_shape B L V (map (map ?f) x)" and "has_shape B L V (map (map ?g) x)"
    using assms(2) lw by (auto intro: has_shape_map_rows)
  then have "tensor_add (map (map ?f) x) (map (map ?g) x) = Inr (add3 (map (map ?f) x) (map (map ?g) x))"
    by (rule tensor_add_same_shape)
  then show ?thesis
    unfolding RCPSLMHead_forward_def
    by (simp only: a b c rbind.simps add3_pointwise lm_row_def [abs_def])
qed

lemma lm_row_rev:
  fixes w :: "'a::semiring_0 list list"
  assumes "length r = 2 * n"
  shows "lm_row w (rev r) = rev (lm_row w r)"
proof -
  have t: "take n (rev r) = rev (drop n r)" and d: "drop n (rev r) = rev (take n r)"
    using assms by (simp_all add: take_rev drop_rev)
  let ?A = "map (dot (take n r)) w" and ?B = "map (dot (rev (drop n r))) w"
  have "lm_row w (rev r) = map2 (+) ?B (rev ?A)"
    using assms by (simp add: lm_row_def t d)
  also have "\<dots> = map2 (+) (rev ?A) ?B"
    by (simp add: list_eq_iff_nth_eq add.commute)
  also have "\<dots> = rev (map2 (+) ?A (rev ?B))"
    by (simp add: rev_map2)
  also have "\<dots> = rev (lm_row w r)"
    using assms by (simp add: lm_row_def)
  finally show ?thesis .
qed

lemmas lm_eval_defs =
  RCPSLMHead_forward_def RCPSLMHead_weight_def F_linear_def linear_row_def dot_def
  first_half_def second_half_def flip_chan_def tensor_add_def broadcast2_def
  RCPSWrapper_rc_def flip_len_chan_def flip_matrix_def

text \<open>
  Claim C5.  For every head weight of shape (V, n) and every hidden tensor \<open>x\<close> of shape
  (B, L, 2 n), the forward pass raises nothing, and on the flip transform of \<open>x\<close> (flip
  along length and channel axes) it returns the flip transform (flip along length and
  vocabulary axes) of the logits it returns on \<open>x\<close>.
\<close>

theorem RCPSLMHead_equivariant:
  assumes "LMHead_wf n V self" and "has_shape B L (2 * n) x"
  shows "\<exists>y. RCPSLMHead_forward self x = Inr y
           \<and> RCPSLMHead_forward self (RCPSWrapper_rc x) = Inr (RCPSWrapper_rc y)"
proof -
  let ?w = "RCPSLMHead_weight self"
  have y: "RCPSLMHead_forward self x = Inr (map (map (lm_row ?w)) x)"
    using assms by (rule RCPSLMHead_forward_closed_form)
  have "has_shape B L (2 * n) (flip_len_chan x)"
    using assms(2) by (simp add: has_shape_flip)
  with assms(1) have "RCPSLMHead_forward self (flip_len_chan x)
      = Inr (map (map (lm_row ?w)) (flip_len_chan x))"
    by (rule RCPSLMHead_forward_closed_form)
  also have "map (map (lm_row ?w)) (flip_len_chan x) = flip_len_chan (map (map (lm_row ?w)) x)"
  proof -
    have "map (lm_row ?w) (flip_matrix m) = flip_matrix (map (lm_row ?w) m)" if "m \<in> set x" for m
    proof -
      have "map (\<lambda>r. lm_row ?w (rev r)) m = map (\<lambda>r. rev (lm_row ?w r)) m"
        using has_shapeD(3) [OF assms(2) that] by (intro map_cong refl lm_row_rev)
      then show ?thesis
        by (simp add: flip_matrix_def rev_map o_def)
    qed
    then show ?thesis by (simp add: flip_len_chan_def)
  qed
  finally show ?thesis using y by (simp add: RCPSWrapper_rc_def)
qed

theorem RCPSLMHead_equivariant_witness:
  "LMHead_wf 2 3 example_lm_head \<and> has_shape 1 2 (2 * 2) [[[1, 0, 2, 1], [0, 1, 1, 3::int]]]
   \<and> RCPSLMHead_forward example_lm_head [[[1, 0, 2, 1], [0, 1, 1, 3]]]
        = Inr [[[18, 14, 10], [23, 17, 11]]]
   \<and> RCPSLMHead_forward example_lm_head (RCPSWrapper_rc [[[1, 0, 2, 1], [0, 1, 1, 3]]])
        = Inr (RCPSWrapper_rc [[[18, 14, 10], [23, 17, 11]]])"
proof -
  have a: "LMHead_wf 2 3 example_lm_head"
    by (simp add: LMHead_wf_def RCPSLMHead_weight_def example_lm_head_def)
  have b: "has_shape 1 2 (2 * 2) [[[1, 0, 2, 1], [0, 1, 1, 3::int]]]"
    by (simp add: has_shape_def)
  have y: "RCPSLMHead_forward example_lm_head [[[1, 0, 2, 1], [0, 1, 1, 3]]]
        = Inr [[[18, 14, 10], [23, 17, 11]]]"
    by (simp add: lm_eval_defs example_lm_head_def)
  from RCPSLMHead_equivariant [OF a b] y a b show ?thesis by auto
qed

lemma dot_sum:
  fixes u w :: "'a::semiring_0 list"
  assumes "length u = n" and "length w = n"
  shows "dot u w = (\<Sum>k = 0..<n. u ! k * w ! k)"
proof -
  have "dot u w = (\<Sum>k = 0..<length (map2 (*) u w). map2 (*) u w ! k)"
    unfolding dot_def by (rule sum_list_sum_nth)
  also have "\<dots> = (\<Sum>k = 0..<n. u ! k * w ! k)"
    using assms by (intro sum.cong) simp_all
  finally show ?thesis .
qed

lemma lm_row_nth:
  fixes w :: "'a::semiring_0 list list"
  assumes "list_all (\<lambda>row. length row = n) w" and "length r = 2 * n" and "v < length w"
  shows "lm_row w r ! v = lm_head_spec w r v"
proof -
  have rows: "length (w ! i) = n" if "i < length w" for i
    using assms(1) that by (simp add: list_all_iff)
  have v': "length w - 1 - v < length w" using assms(3) by simp
  have "lm_row w r ! v = dot (take n r) (w ! v) + dot (rev (drop n r)) (w ! (length w - 1 - v))"
    using assms(2,3) by (simp add: lm_row_def rev_nth)
  also have "dot (take n r) (w ! v) = (\<Sum>k = 0..<n. take n r ! k * w ! v ! k)"
    using assms(2,3) by (intro dot_sum) (simp_all add: rows)
  also have "\<dots> = (\<Sum>k = 0..<n. r ! k * w ! v ! k)"
    by (intro sum.cong) simp_all
  also have "dot (rev (drop n r)) (w ! (length w - 1 - v))
      = (\<Sum>k = 0..<n. rev (drop n r) ! k * w ! (length w - 1 - v) ! k)"
    using assms(2) v' by (intro dot_sum) (simp_all add: rows)
  also have "\<dots> = (\<Sum>k = 0..<n. r ! (2 * n - 1 - k) * w ! (length w - 1 - v) ! k)"
  proof (intro sum.cong refl)
    fix k assume "k \<in> {0..<n}"
    then have k: "k < n" by simp
    then have "rev (drop n r) ! k = drop n r ! (n - Suc k)"
      using assms(2) by (simp add: rev_nth)
    also have "\<dots> = r ! (n + (n - Suc k))"
      using assms(2) k by simp
    also have "n + (n - Suc k) = 2 * n - 1 - k"
      using k by simp
    finally show "rev (drop n r) ! k * w ! (length w - 1 - v) ! k
        = r ! (2 * n - 1 - k) * w ! (length w - 1 - v) ! k"
      by simp
  qed
  finally show ?thesis
    using assms(2) by (simp add: lm_head_spec_def)
qed

lemma length_lm_row: "length (lm_row w r) = length w"
  by (simp add: lm_row_def)

text \<open>
  Claim C7.  For every head weight \<open>W\<close> of shape (V, n) and every input \<open>x\<close> of shape
  (B, L, 2 n), the forward pass returns logits of shape (B, L, V), and each logit is the
  sum of the entry of \<open>W\<close> applied to the first channel half of \<open>x\<close> and the entry at
  the mirrored vocabulary position of \<open>W\<close> applied to the channel-flipped second channel
  half of \<open>x\<close>.
\<close>

theorem RCPSLMHead_forward_spec:
  assumes "LMHead_wf n V self" and "has_shape B L (2 * n) x"
  shows "\<exists>y. RCPSLMHead_forward self x = Inr y \<and> has_shape B L V y
           \<and> (\<forall>b<B. \<forall>l<L. \<forall>v<V.
                y ! b ! l ! v = lm_head_spec (RCPSLMHead_weight self) (x ! b ! l) v)"
proof -
  let ?w = "RCPSLMHead_weight self"
  let ?y = "map (map (lm_row ?w)) x"
  have w: "list_all (\<lambda>row. length row = n) ?w" and lw: "length ?w = V"
    using assms(1) by (simp_all add: LMHead_wf_def)
  have y: "RCPSLMHead_forward self x = Inr ?y"
    using assms by (rule RCPSLMHead_forward_closed_form)
  have shape: "has_shape B L V ?y"
    using assms(2) by (rule has_shape_map_rows) (simp add: length_lm_row lw)
  have "?y ! b ! l ! v = lm_head_spec ?w (x ! b ! l) v" if "b < B" and "l < L" and "v < V" for b l v
  proof -
    have b: "b < length x" using has_shapeD(1) [OF assms(2)] that(1) by simp
    then have m: "x ! b \<in> set x" by simp
    have l: "l < length (x ! b)" using has_shapeD(2) [OF assms(2) m] that(2) by simp
    then have "x ! b ! l \<in> set (x ! b)" by simp
    then have "length (x ! b ! l) = 2 * n" using has_shapeD(3) [OF assms(2) m] by simp
    with w have "lm_row ?w (x ! b ! l) ! v = lm_head_spec ?w (x ! b ! l) v"
      using that(3) lw by (intro lm_row_nth) simp_all
    then show ?thesis using b l by simp
  qed
  with y shape show ?thesis by blast
qed

theorem RCPSLMHead_forward_spec_witness:
  "LMHead_wf 2 3 example_lm_head \<and> has_shape 1 1 (2 * 2) [[[1, 0, 2, 1::int]]]
   \<and> RCPSLMHead_forward example_lm_head [[[1, 0, 2, 1]]] = Inr [[[18, 14, 10]]]
   \<and> has_shape 1 1 3 [[[18, 14, 10::int]]]
   \<and> lm_head_spec (RCPSLMHead_weight example_lm_head) [1, 0, 2, 1] 0 = 18
   \<and> lm_head_spec (RCPSLMHead_weight example_lm_head) [1, 0, 2, 1] 1 = 14
   \<and> lm_head_spec (RCPSLMHead_weight example_lm_head) [1, 0, 2, 1] 2 = 10"
proof -
  have a: "LMHead_wf 2 3 example_lm_head"
    by (simp add: LMHead_wf_def RCPSLMHead_weight_def example_lm_head_def)
  have b: "has_shape 1 1 (2 * 2) [[[1, 0, 2, 1::int]]]"
    by (simp add: has_shape_def)
  have y: "RCPSLMHead_forward example_lm_head [[[1, 0, 2, 1]]] = Inr [[[18, 14, 10]]]"
    by (simp add: lm_eval_defs example_lm_head_def)
  from RCPSLMHead_forward_spec [OF a b] y
  have s: "has_shape 1 1 3 [[[18, 14, 10::int]]]"
    and e: "\<forall>v<3. [[[18, 14, 10::int]]] ! 0 ! 0 ! v
              = lm_head_spec (RCPSLMHead_weight example_lm_head) ([[[1, 0, 2, 1]]] ! 0 ! 0) v"
    by auto
  from e [rule_format, of 0] e [rule_format, of 1] e [rule_format, of 2]
  have "lm_head_spec (RCPSLMHead_weight example_lm_head) [1, 0, 2, 1] 0 = 18"
    and "lm_head_spec (RCPSLMHead_weight example_lm_head) [1, 0, 2, 1] 1 = 14"
    and "lm_head_spec (RCPSLMHead_weight example_lm_head) [1, 0, 2, 1] 2 = 10"
    by simp_all
  with a b y s show ?thesis by simp
qed

subsection \<open>RCPSCollapse\<close>

lemma half_of_flip:
  assumes "has_shape B L (2 * n) x"
  shows "flip_len_chan (second_half x) = first_half (flip_len_chan x)"
proof -
  have "flip_matrix (map (\<lambda>r. drop (length r div 2) r) m)
      = map (\<lambda>r. take (length r div 2) r) (flip_matrix m)" if "m \<in> set x" for m
  proof -
    have "map (\<lambda>r. rev (drop (length r div 2) r)) m = map (\<lambda>r. take (length r div 2) (rev r)) m"
    proof (intro map_cong refl)
      fix r assume "r \<in> set m"
      then have "length r = 2 * n" using has_shapeD(3) [OF assms that] by simp
      then show "rev (drop (length r div 2) r) = take (length r div 2) (rev r)"
        by (simp add: take_rev)
    qed
    then show ?thesis
      by (simp add: flip_matrix_def rev_map o_def)
  qed
  then show ?thesis
    by (simp add: flip_len_chan_def first_half_def second_half_def)
qed

lemma has_shape_first_half:
  assumes "has_shape B L (2 * n) x"
  shows "has_shape B L n (first_half x)"
  unfolding first_half_def using assms by (rule has_shape_map_rows) simp

lemma add3_self: "add3 a a = map (map (map (\<lambda>v. v + v))) a"
proof -
  have row: "map2 (+) r r = map (\<lambda>v. v + v) r" for r :: "'a list"
    by (induction r) simp_all
  have "map2 (map2 (+)) m m = map (map (\<lambda>v. v + v)) m" for m :: "'a list list"
    by (induction m) (simp_all add: row)
  then show ?thesis
    unfolding add3_def by (induction a) simp_all
qed

lemmas collapse_eval_defs =
  RCPSCollapse_forward_def first_half_def second_half_def tensor_add_def broadcast2_def
  RCPSWrapper_rc_def flip_len_chan_def flip_matrix_def

text \<open>
  Claim C6, amended.  For every tensor \<open>x\<close> of shape (B, L, 2 n) that equals its own flip
  transform (flip along length and channel axes), \<open>RCPSCollapse.forward\<close> raises nothing
  and returns the first channel half of \<open>x\<close> exactly; that half is the flip transform of
  the second channel half.
\<close>

theorem RCPSCollapse_symmetric:
  fixes x :: "'a::field_char_0 tensor3"
  assumes "has_shape B L (2 * n) x" and "RCPSWrapper_rc x = x"
  shows "RCPSCollapse_forward x = Inr (first_half x)
       \<and> first_half x = RCPSWrapper_rc (second_half x)"
proof -
  have flip: "flip_len_chan (second_half x) = first_half x"
    using half_of_flip [OF assms(1)] assms(2) by (simp add: RCPSWrapper_rc_def)
  have h: "has_shape B L n (first_half x)"
    using assms(1) by (rule has_shape_first_half)
  have "tensor_add (first_half x) (first_half x) = Inr (add3 (first_half x) (first_half x))"
    using h h by (rule tensor_add_same_shape)
  then have "RCPSCollapse_forward x
      = Inr (map (map (map (\<lambda>v. v / 2))) (map (map (map (\<lambda>v. v + v))) (first_half x)))"
    by (simp add: RCPSCollapse_forward_def flip add3_self)
  also have "map (map (map (\<lambda>v. v / 2))) (map (map (map (\<lambda>v. v + v))) (first_half x))
      = first_half x"
    by (simp add: o_def)
  finally show ?thesis
    using flip by (simp add: RCPSWrapper_rc_def)
qed

theorem RCPSCollapse_symmetric_witness:
  "has_shape 1 2 (2 * 2) [[[1, 2, 3, 4], [4, 3, 2, 1::real]]]
   \<and> RCPSWrapper_rc [[[1, 2, 3, 4], [4, 3, 2, 1::real]]] = [[[1, 2, 3, 4], [4, 3, 2, 1]]]
   \<and> RCPSCollapse_forward [[[1, 2, 3, 4], [4, 3, 2, 1::real]]] = Inr [[[1, 2], [4, 3]]]
   \<and> first_half [[[1, 2, 3, 4], [4, 3, 2, 1::real]]] = [[[1, 2], [4, 3]]]
   \<and> RCPSWrapper_rc (second_half [[[1, 2, 3, 4], [4, 3, 2, 1::real]]]) = [[[1, 2], [4, 3]]]"
proof -
  have a: "has_shape 1 2 (2 * 2) [[[1, 2, 3, 4], [4, 3, 2, 1::real]]]"
    by (simp add: has_shape_def)
  have b: "RCPSWrapper_rc [[[1, 2, 3, 4], [4, 3, 2, 1::real]]] = [[[1, 2, 3, 4], [4, 3, 2, 1]]]"
    by (simp add: RCPSWrapper_rc_def flip_len_chan_def flip_matrix_def)
  have c: "first_half [[[1, 2, 3, 4], [4, 3, 2, 1::real]]] = [[[1, 2], [4, 3]]]"
    by (simp add: first_half_def)
  from RCPSCollapse_symmetric [OF a b] show ?thesis
    unfolding c using a b by simp
qed

text \<open>
  The second channel half itself is in general another tensor: on the symmetric input
  below the collapse is \<open>[1, 2]\<close> and the second half is \<open>[2, 1]\<close>.
\<close>

theorem RCPSCollapse_symmetric_counterexample:
  "has_shape 1 1 4 [[[1, 2, 2, 1::real]]]
   \<and> RCPSWrapper_rc [[[1, 2, 2, 1::real]]] = [[[1, 2, 2, 1]]]
   \<and> RCPSCollapse_forward [[[1, 2, 2, 1::real]]] = Inr [[[1, 2]]]
   \<and> second_half [[[1, 2, 2, 1::real]]] = [[[2, 1]]]
   \<and> RCPSCollapse_forward [[[1, 2, 2, 1::real]]] \<noteq> Inr (second_half [[[1, 2, 2, 1]]])"
  by (simp add: collapse_eval_defs has_shape_def)

subsection \<open>RCPSAddNormWrapper\<close>

lemma has_shape_add3:
  assumes "has_shape B L C a" and "has_shape B L C b"
  shows "has_shape B L C (add3 a b)"
proof (rule has_shapeI)
  show "length (add3 a b) = B"
    using has_shapeD(1) [OF assms(1)] has_shapeD(1) [OF assms(2)] by (simp add: add3_def)
next
  fix m assume "m \<in> set (add3 a b)"
  then obtain p q where pq: "(p, q) \<in> set (zip a b)" and m: "m = map2 (map2 (+)) p q"
    by (auto simp: add3_def)
  then have p: "p \<in> set a" and q: "q \<in> set b"
    by (auto dest: set_zip_leftD set_zip_rightD)
  show "length m = L"
    using has_shapeD(2) [OF assms(1) p] has_shapeD(2) [OF assms(2) q] by (simp add: m)
  fix r assume "r \<in> set m"
  then obtain u v where uv: "(u, v) \<in> set (zip p q)" and r: "r = map2 (+) u v"
    by (auto simp: m)
  then have "u \<in> set p" and "v \<in> set q"
    by (auto dest: set_zip_leftD set_zip_rightD)
  then show "length r = C"
    using has_shapeD(3) [OF assms(1) p] has_shapeD(3) [OF assms(2) q] by (simp add: r)
qed

lemma map_rev_map2:
  assumes "list_all2 (\<lambda>r s. length r = length s) m n"
  shows "map rev (map2 (map2 f) m n) = map2 (map2 f) (map rev m) (map rev n)"
  using assms by (induction m n rule: list_all2_induct) (simp_all add: rev_map2)

lemma flip_matrix_map2:
  assumes "list_all2 (\<lambda>r s. length r = length s) m n"
  shows "flip_matrix (map2 (map2 f) m n) = map2 (map2 f) (flip_matrix m) (flip_matrix n)"
proof -
  have "length (map rev m) = length (map rev n)"
    using assms by (simp add: list_all2_lengthD)
  then show ?thesis
    unfolding flip_matrix_def map_rev_map2 [OF assms] by (rule rev_map2)
qed

lemma flip_add3:
  assumes "has_shape B L C a" and "has_shape B L C b"
  shows "flip_len_chan (add3 a b) = add3 (flip_len_chan a) (flip_len_chan b)"
proof -
  have "list_all2 (list_all2 (\<lambda>r s. length r = length s)) a b"
    unfolding list_all2_conv_all_nth
  proof (intro conjI allI impI)
    show "length a = length b"
      using has_shapeD(1) [OF assms(1)] has_shapeD(1) [OF assms(2)] by simp
  next
    fix i assume i: "i < length a"
    then have a: "a ! i \<in> set a" and b: "b ! i \<in> set b"
      using has_shapeD(1) [OF assms(1)] has_shapeD(1) [OF assms(2)] by simp_all
    show "length (a ! i) = length (b ! i)"
      using has_shapeD(2) [OF assms(1) a] has_shapeD(2) [OF assms(2) b] by simp
    fix j assume j: "j < length (a ! i)"
    then have "a ! i ! j \<in> set (a ! i)" and "b ! i ! j \<in> set (b ! i)"
      using has_shapeD(2) [OF assms(1) a] has_shapeD(2) [OF assms(2) b] by simp_all
    then show "length (a ! i ! j) = length (b ! i ! j)"
      using has_shapeD(3) [OF assms(1) a] has_shapeD(3) [OF assms(2) b] by simp
  qed
  then show ?thesis
    unfolding flip_len_chan_def add3_def
    by (induction a b rule: list_all2_induct) (simp_all add: flip_matrix_map2)
qed

lemma residual_sums:
  assumes "has_shape B L C x" and "case residual of None \<Rightarrow> True | Some r \<Rightarrow> has_shape B L C r"
  shows "(case residual of Some r \<Rightarrow> tensor_add x r | None \<Rightarrow> Inr x)
           = Inr (residual_fwd_sum x residual)"
    and "(case residual of
            Some r \<Rightarrow> tensor_add (RCPSAddNormWrapper_rc x) (RCPSAddNormWrapper_rc r)
          | None \<Rightarrow> Inr (RCPSAddNormWrapper_rc x))
           = Inr (residual_rc_sum x residual)"
    and "has_shape B L C (residual_fwd_sum x residual)"
    and "RCPSAddNormWrapper_rc (residual_rc_sum x residual) = residual_fwd_sum x residual"
proof -
  show "(case residual of Some r \<Rightarrow> tensor_add x r | None \<Rightarrow> Inr x)
           = Inr (residual_fwd_sum x residual)"
    using assms by (auto simp: residual_fwd_sum_def tensor_add_same_shape split: option.splits)
  show "(case residual of
            Some r \<Rightarrow> tensor_add (RCPSAddNormWrapper_rc x) (RCPSAddNormWrapper_rc r)
          | None \<Rightarrow> Inr (RCPSAddNormWrapper_rc x))
           = Inr (residual_rc_sum x residual)"
    using assms
    by (auto simp: residual_rc_sum_def RCPSAddNormWrapper_rc_def has_shape_flip
        intro: tensor_add_same_shape split: option.splits)
  show "has_shape B L C (residual_fwd_sum x residual)"
    using assms by (auto simp: residual_fwd_sum_def has_shape_add3 split: option.splits)
  show "RCPSAddNormWrapper_rc (residual_rc_sum x residual) = residual_fwd_sum x residual"
  proof (cases residual)
    case None
    then show ?thesis
      by (simp add: residual_rc_sum_def residual_fwd_sum_def RCPSAddNormWrapper_rc_def
          flip_len_chan_involution)
  next
    case (Some r)
    then have r: "has_shape B L C r" using assms(2) by simp
    have "flip_len_chan (add3 (flip_len_chan x) (flip_len_chan r))
        = add3 (flip_len_chan (flip_len_chan x)) (flip_len_chan (flip_len_chan r))"
      using assms(1) r by (intro flip_add3 [of B L C]) (simp_all add: has_shape_flip)
    then show ?thesis
      using Some
      by (simp add: residual_rc_sum_def residual_fwd_sum_def RCPSAddNormWrapper_rc_def
          flip_len_chan_involution)
  qed
qed

lemmas addnorm_eval_defs =
  RCPSAddNormWrapper_forward_def AddNorm_spec_def residual_fwd_sum_def residual_rc_sum_def
  RCPSAddNormWrapper_rc_def tensor_add_def broadcast2_def add3_def tensor_to_def torch_cat_def
  cat_rows_def flip_len_chan_def flip_matrix_def

text \<open>
  Claim C8, amended.  For every input \<open>x\<close> and optional residual of one shape (B, L, C),
  when the normalisation returns \<open>x_fwd\<close> on the forward residual sum and \<open>x_rc\<close> on the
  residual sum of the reverse branch, both of shape (B, L, C'), the forward pass returns
  a pair: the returned \<open>x\<close> is the channel-axis concatenation of \<open>x_fwd\<close> and the flip
  transform of \<open>x_rc\<close>, of shape (B, L, 2 C'); the returned residual is the channel-axis
  concatenation of the forward residual sum and the flip transform of the residual sum of
  the reverse branch, which is the forward residual sum again, of shape (B, L, 2 C).
  The forward sum is \<open>x + residual\<close>, or \<open>x\<close> when the residual is absent; the sum of the
  reverse branch is computed from the flip transforms of \<open>x\<close> and of the residual.
\<close>

theorem RCPSAddNormWrapper_forward_result:
  assumes "has_shape B L C x" and "case residual of None \<Rightarrow> True | Some r \<Rightarrow> has_shape B L C r"
    and "norm_f self (tensor_to (norm_dtype self) (residual_fwd_sum x residual)) = Inr x_fwd"
    and "norm_f self (tensor_to (norm_dtype self) (residual_rc_sum x residual)) = Inr x_rc"
    and "has_shape B L C' x_fwd" and "has_shape B L C' x_rc"
  shows "\<exists>x' residual'.
           RCPSAddNormWrapper_forward self x residual = Inr (x', residual')
         \<and> torch_cat x_fwd (RCPSAddNormWrapper_rc x_rc) = Inr x'
         \<and> torch_cat (residual_fwd_sum x residual)
              (RCPSAddNormWrapper_rc (residual_rc_sum x residual)) = Inr residual'
         \<and> RCPSAddNormWrapper_rc (residual_rc_sum x residual) = residual_fwd_sum x residual
         \<and> has_shape B L (C' + C') x' \<and> has_shape B L (C + C) residual'"
proof -
  note s = residual_sums [OF assms(1,2)]
  let ?f = "residual_fwd_sum x residual"
  have rc_shape: "has_shape B L C' (RCPSAddNormWrapper_rc x_rc)"
    using assms(6) by (simp add: RCPSAddNormWrapper_rc_def has_shape_flip)
  have cx: "torch_cat x_fwd (RCPSAddNormWrapper_rc x_rc)
      = Inr (map2 cat_rows x_fwd (RCPSAddNormWrapper_rc x_rc))"
    using assms(5) rc_shape by (rule torch_cat_shapes)
  have cr: "torch_cat ?f ?f = Inr (map2 cat_rows ?f ?f)"
    using s(3) s(3) by (rule torch_cat_shapes)
  have "RCPSAddNormWrapper_forward self x residual
      = Inr (map2 cat_rows x_fwd (RCPSAddNormWrapper_rc x_rc), map2 cat_rows ?f ?f)"
    unfolding RCPSAddNormWrapper_forward_def
    by (simp only: s(1,2,4) assms(3,4) rbind.simps cx cr)
  moreover have "has_shape B L (C' + C') (map2 cat_rows x_fwd (RCPSAddNormWrapper_rc x_rc))"
    using assms(5) rc_shape by (rule has_shape_cat)
  moreover have "has_shape B L (C + C) (map2 cat_rows ?f ?f)"
    using s(3) s(3) by (rule has_shape_cat)
  ultimately show ?thesis
    using cx cr s(4) by simp
qed

theorem RCPSAddNormWrapper_forward_result_witness:
  "has_shape 1 1 2 [[[1, 2::int]]] \<and> has_shape 1 1 2 [[[10, 20::int]]]
   \<and> norm_f example_addnorm (tensor_to (norm_dtype example_addnorm)
        (residual_fwd_sum [[[1, 2]]] (Some [[[10, 20]]]))) = Inr [[[22, 44]]]
   \<and> norm_f example_addnorm (tensor_to (norm_dtype example_addnorm)
        (residual_rc_sum [[[1, 2]]] (Some [[[10, 20]]]))) = Inr [[[44, 22]]]
   \<and> RCPSAddNormWrapper_forward example_addnorm [[[1, 2]]] (Some [[[10, 20]]])
        = Inr ([[[22, 44, 22, 44]]], [[[11, 22, 11, 22]]])"
proof -
  have a: "has_shape 1 1 2 [[[1, 2::int]]]" and b: "has_shape 1 1 2 [[[10, 20::int]]]"
    by (simp_all add: has_shape_def)
  have b': "case Some [[[10, 20::int]]] of None \<Rightarrow> True | Some r \<Rightarrow> has_shape 1 1 2 r"
    using b by simp
  have f: "norm_f example_addnorm (tensor_to (norm_dtype example_addnorm)
        (residual_fwd_sum [[[1, 2]]] (Some [[[10, 20]]]))) = Inr [[[22, 44]]]"
    by (simp add: example_addnorm_def addnorm_eval_defs)
  have r: "norm_f example_addnorm (tensor_to (norm_dtype example_addnorm)
        (residual_rc_sum [[[1, 2]]] (Some [[[10, 20]]]))) = Inr [[[44, 22]]]"
    by (simp add: example_addnorm_def addnorm_eval_defs)
  have s: "has_shape 1 1 2 [[[22, 44::int]]]" and s': "has_shape 1 1 2 [[[44, 22::int]]]"
    by (simp_all add: has_shape_def)
  have cx: "torch_cat [[[22, 44::int]]] (RCPSAddNormWrapper_rc [[[44, 22]]]) = Inr [[[22, 44, 22, 44]]]"
    by (simp add: addnorm_eval_defs)
  have cr: "torch_cat (residual_fwd_sum [[[1, 2::int]]] (Some [[[10, 20]]]))
              (RCPSAddNormWrapper_rc (residual_rc_sum [[[1, 2]]] (Some [[[10, 20]]])))
            = Inr [[[11, 22, 11, 22]]]"
    by (simp add: addnorm_eval_defs)
  from RCPSAddNormWrapper_forward_result [OF a b' f r s s'] cx cr
  have "RCPSAddNormWrapper_forward example_addnorm [[[1, 2]]] (Some [[[10, 20]]])
        = Inr ([[[22, 44, 22, 44]]], [[[11, 22, 11, 22]]])"
    by auto
  with a b f r show ?thesis by simp
qed

text \<open>
  Concatenating the results of the reverse branch as they are, without the flip back,
  gives another pair.
\<close>

theorem RCPSAddNormWrapper_forward_result_counterexample:
  "RCPSAddNormWrapper_forward example_addnorm [[[1, 2]]] (Some [[[10, 20]]])
        = Inr ([[[22, 44, 22, 44]]], [[[11, 22, 11, 22]]])
   \<and> AddNorm_spec example_addnorm [[[1, 2]]] (Some [[[10, 20]]])
        = Inr ([[[22, 44, 44, 22]]], [[[11, 22, 22, 11]]])
   \<and> RCPSAddNormWrapper_forward example_addnorm [[[1, 2]]] (Some [[[10, 20]]])
        \<noteq> AddNorm_spec example_addnorm [[[1, 2]]] (Some [[[10, 20]]])"
  by (simp add: example_addnorm_def addnorm_eval_defs)

subsection \<open>RCPSWrapperKeepDim\<close>

lemma Linear_forward_wf:
  assumes "Linear_wf i o' l" and "has_shape B L i u"
  shows "Linear_forward l u = Inr (map (map (proj_row l)) u)"
    and "has_shape B L o' (map (map (proj_row l)) u)"
proof -
  show "Linear_forward l u = Inr (map (map (proj_row l)) u)"
    unfolding Linear_forward_def F_linear_def
  proof (rule mapM_mapM_Inr)
    fix m v assume "m \<in> set u" and "v \<in> set m"
    then have "length v = i" by (rule has_shapeD(3) [OF assms(2)])
    with assms(1) show "linear_row (weight l) (bias l) v = Inr (proj_row l v)"
      by (rule linear_row_wf)
  qed
  show "has_shape B L o' (map (map (proj_row l)) u)"
    using assms(2) by (rule has_shape_map_rows) (rule length_proj_row [OF assms(1)])
qed

text \<open>
  Claim C9.  Let the projection of the wrapper map \<open>c\<close> channels to \<open>c / 2\<close>, \<open>c\<close> even,
  and let the submodule return tensors of shape (B, L, c) on \<open>x\<close> and on the flip
  transform of \<open>x\<close>.  Then the forward pass raises nothing; the one projection takes the
  output of each branch to shape (B, L, c / 2); the result is the channel-axis
  concatenation of the projected forward branch and the flip transform of the projected
  reverse branch, and has shape (B, L, c).
\<close>

theorem RCPSWrapperKeepDim_forward_width:
  assumes "Linear_wf c (c div 2) (keepdim_proj self)" and "c mod 2 = 0"
    and "submodule self x = Inr u" and "submodule self (RCPSWrapper_rc x) = Inr w"
    and "has_shape B L c u" and "has_shape B L c w"
  shows "\<exists>y. RCPSWrapperKeepDim_forward self x = Inr y \<and> has_shape B L c y
           \<and> has_shape B L (c div 2) (map (map (proj_row (keepdim_proj self))) u)
           \<and> has_shape B L (c div 2) (map (map (proj_row (keepdim_proj self))) w)
           \<and> torch_cat (map (map (proj_row (keepdim_proj self))) u)
                (RCPSWrapper_rc (map (map (proj_row (keepdim_proj self))) w)) = Inr y"
proof -
  let ?p = "proj_row (keepdim_proj self)"
  note fu = Linear_forward_wf [OF assms(1,5)] and fw = Linear_forward_wf [OF assms(1,6)]
  have rc: "has_shape B L (c div 2) (RCPSWrapper_rc (map (map ?p) w))"
    using fw(2) by (simp add: RCPSWrapper_rc_def has_shape_flip)
  have cat: "torch_cat (map (map ?p) u) (RCPSWrapper_rc (map (map ?p) w))
      = Inr (map2 cat_rows (map (map ?p) u) (RCPSWrapper_rc (map (map ?p) w)))"
    using fu(2) rc by (rule torch_cat_shapes)
  have "c div 2 + c div 2 = c" using assms(2) by presburger
  with has_shape_cat [OF fu(2) rc]
  have shape: "has_shape B L c (map2 cat_rows (map (map ?p) u) (RCPSWrapper_rc (map (map ?p) w)))"
    by simp
  have "RCPSWrapperKeepDim_forward self x
      = Inr (map2 cat_rows (map (map ?p) u) (RCPSWrapper_rc (map (map ?p) w)))"
    unfolding RCPSWrapperKeepDim_forward_def
    by (simp only: assms(3,4) fu(1) fw(1) rbind.simps cat)
  with shape fu(2) fw(2) cat show ?thesis by simp
qed

theorem RCPSWrapperKeepDim_forward_width_witness:
  "Linear_wf 4 (4 div 2) (keepdim_proj example_keepdim) \<and> (4::nat) mod 2 = 0
   \<and> submodule example_keepdim [[[0, 1, 2, 3]]] = Inr [[[1, 2, 3, 4]]]
   \<and> submodule example_keepdim (RCPSWrapper_rc [[[0, 1, 2, 3]]]) = Inr [[[4, 3, 2, 1]]]
   \<and> has_shape 1 1 4 [[[1, 2, 3, 4::int]]] \<and> has_shape 1 1 4 [[[4, 3, 2, 1::int]]]
   \<and> RCPSWrapperKeepDim_forward example_keepdim [[[0, 1, 2, 3]]] = Inr [[[9, 12, 10, 6]]]
   \<and> has_shape 1 1 4 [[[9, 12, 10, 6::int]]]"
proof -
  have a: "Linear_wf 4 (4 div 2) (keepdim_proj example_keepdim)"
    by (simp add: Linear_wf_def example_keepdim_def)
  have b: "(4::nat) mod 2 = 0" by simp
  have u: "submodule example_keepdim [[[0, 1, 2, 3]]] = Inr [[[1, 2, 3, 4]]]"
    by (simp add: example_keepdim_def)
  have w: "submodule example_keepdim (RCPSWrapper_rc [[[0, 1, 2, 3]]]) = Inr [[[4, 3, 2, 1]]]"
    by (simp add: example_keepdim_def RCPSWrapper_rc_def flip_len_chan_def flip_matrix_def)
  have s: "has_shape 1 1 4 [[[1, 2, 3, 4::int]]]" and s': "has_shape 1 1 4 [[[4, 3, 2, 1::int]]]"
    by (simp_all add: has_shape_def)
  have c: "torch_cat (map (map (proj_row (keepdim_proj example_keepdim))) [[[1, 2, 3, 4]]])
        (RCPSWrapper_rc (map (map (proj_row (keepdim_proj example_keepdim))) [[[4, 3, 2, 1]]]))
      = Inr [[[9, 12, 10, 6]]]"
    by (simp add: example_keepdim_def proj_row_def dot_def torch_cat_def cat_rows_def
        RCPSWrapper_rc_def flip_len_chan_def flip_matrix_def)
  from RCPSWrapperKeepDim_forward_width [OF a b u w s s'] c
  have "RCPSWrapperKeepDim_forward example_keepdim [[[0, 1, 2, 3]]] = Inr [[[9, 12, 10, 6]]]"
    and "has_shape 1 1 4 [[[9, 12, 10, 6::int]]]"
    by auto
  with a b u w s s' show ?thesis by simp
qed

end
